theory Spec2Isabelle
  imports Complex_Main "HOL-Library.Sublist" "HOL-Library.Multiset"
begin

section \<open>The merge engine of the charging-station connectors\<close>

text \<open>
  This theory embeds \<^verbatim>\<open>src/charging_stations/connectors/_merger.py\<close> (class
  \<^verbatim>\<open>Merger\<close>) and proves properties of it.

  Conventions of the embedding.
  \<^item> A pandas frame is the list of its rows in positional order, each row paired with
    its index label: \<^verbatim>\<open>iloc\<close> reads by position, \<^verbatim>\<open>loc\<close> by label.
  \<^item> Floats are real numbers: the scores and distances are the exact values of the
    formulas, without rounding.
  \<^item> The libraries the merger calls are parameters of the functions that use them:
    \<open>knn\<close> is the neighbour table of the libpysal index (index label to the labels
    of its neighbours) and \<open>knn_from_dataframe\<close> its construction, which may raise;
    \<open>ratio\<close> is \<^verbatim>\<open>SequenceMatcher(None, a, b).ratio()\<close>;
    \<open>wkt_loads\<close> is shapely's parser (\<open>None\<close> where it raises); \<open>sample\<close> is the
    shuffle \<^verbatim>\<open>DataFrame.sample(frac=1.0)\<close>; and the directory read by
    \<^verbatim>\<open>_load_data\<close> is the list of its file names with what opening and parsing each
    file gives. The theorems hold for all values of these parameters, under the premises
    they state.
  \<^item> Every \<^verbatim>\<open>raise\<close> is a value \<open>Inl e\<close> of a sum type.
\<close>

subsection \<open>Data model\<close>

datatype error =
    RuntimeError string
  | KeyError string
  | IndexError
  | IOError string
  | NonFinite

text \<open>
  \<open>NonFinite\<close> is not an exception of the source. It marks the one place where numpy
  goes on with \<^verbatim>\<open>inf\<close> or \<^verbatim>\<open>nan\<close> (a division by \<^verbatim>\<open>max_distance = 0\<close>), which
  real numbers do not model; nothing is proved about what the code does after it.
\<close>

text \<open>The first two entries of \<^verbatim>\<open>geometry.bounds\<close>: for a point, longitude and latitude.\<close>

record geometry =
  minx :: real
  miny :: real

text \<open>
  One station: the columns of the frame that the merger reads, and \<open>attrs\<close> for all
  the others (payment, authentication, the charging lists, raw data). The column is
  called \<^verbatim>\<open>coordinates\<close> and holds a WKT string in the input, and is called
  \<^verbatim>\<open>geometry\<close> after preparation; \<open>'g\<close> is what it holds.
\<close>

record ('g, 'a) station =
  station_id :: string
  data_source :: string
  operator :: "string option"
  street :: "string option"
  postcode :: "string option"
  town :: "string option"
  socket_type_list :: "string list option"
  geometry :: 'g
  is_duplicate :: bool
  merged_attributes :: bool
  attrs :: 'a

type_synonym 'a station_dict = "(string option, 'a) station"
type_synonym 'a row = "(geometry, 'a) station"
type_synonym 'a frame = "(nat \<times> 'a row) list"

text \<open>A row of the frame returned by \<^verbatim>\<open>_get_duplicate_candidates\<close>.\<close>

record 'a candidate =
  lbl :: nat
  distance_meter :: real
  row :: "'a row"

text \<open>A row of the frame returned by \<^verbatim>\<open>_determine_duplicates\<close>.\<close>

record 'a scored = "'a candidate" +
  operator_match :: real
  address :: string
  address_match :: real
  matching_score :: real

subsection \<open>\<^verbatim>\<open>_load_data\<close>\<close>

text \<open>
  The loop over \<^verbatim>\<open>os.listdir\<close>. \<^verbatim>\<open>self.data_sources += json.load(...)\<close> extends the
  list in place, so an exception raised at a later file leaves the records of the earlier
  files in \<^verbatim>\<open>self.data_sources\<close>: the result is the exception, if any, and the list.
\<close>

fun load_files ::
  "bool \<Rightarrow> (string \<times> (error + 'd list)) list \<Rightarrow> 'd list \<Rightarrow> error option \<times> 'd list" where
  "load_files is_test [] data_sources = (None, data_sources)"
| "load_files is_test ((file, content) # files) data_sources =
     (let startswith = prefix ''test_'' file;
          endswith = suffix ''__processed.json'' file
      in if (if is_test then (\<not> startswith) \<or> (\<not> endswith)
             else (\<not> endswith) \<or> startswith)
         then load_files is_test files data_sources
         else (case content of
                 Inl e \<Rightarrow> (Some e, data_sources)
               | Inr loaded \<Rightarrow> load_files is_test files (data_sources @ loaded)))"

definition load_data ::
  "bool \<Rightarrow> error + (string \<times> (error + 'd list)) list \<Rightarrow> 'd list \<Rightarrow> error option \<times> 'd list" where
  "load_data is_test listdir data_sources =
     (case listdir of
        Inl e \<Rightarrow> (Some e, data_sources)
      | Inr files \<Rightarrow>
          (case load_files is_test files data_sources of
             (Some e, ds) \<Rightarrow> (Some e, ds)
           | (None, ds) \<Rightarrow>
               if length ds < 1 then (Some (RuntimeError ''Could not read any json files!''), ds)
               else (None, ds)))"

subsection \<open>\<^verbatim>\<open>haversine_distance\<close>\<close>

definition radians :: "real \<Rightarrow> real" where
  "radians x = x * pi / 180"

text \<open>The columns are \<^verbatim>\<open>lon1, lat1, lon2, lat2\<close>; the result is in metres.\<close>

definition haversine_distance :: "real \<times> real \<times> real \<times> real \<Rightarrow> bool \<Rightarrow> real \<Rightarrow> real" where
  "haversine_distance coords to_radians earth_radius =
     (case coords of (lon1, lat1, lon2, lat2) \<Rightarrow>
        let lon1 = (if to_radians then radians lon1 else lon1);
            lat1 = (if to_radians then radians lat1 else lat1);
            lon2 = (if to_radians then radians lon2 else lon2);
            lat2 = (if to_radians then radians lat2 else lat2);
            delta_lat_sin_squared = (sin ((lat2 - lat1) / 2))\<^sup>2;
            delta_lon_sin_squared = (sin ((lon2 - lon1) / 2))\<^sup>2;
            a = delta_lat_sin_squared + cos lat1 * cos lat2 * delta_lon_sin_squared
        in earth_radius * 2 * arcsin (sqrt a) * 1000)"

subsection \<open>\<^verbatim>\<open>_prepare_geodataframe\<close>\<close>

definition get_wkt :: "(string \<Rightarrow> geometry option) \<Rightarrow> string option \<Rightarrow> geometry option" where
  "get_wkt wkt_loads x = (case x of None \<Rightarrow> None | Some s \<Rightarrow> wkt_loads s)"

definition to_row :: "'a station_dict \<Rightarrow> geometry \<Rightarrow> 'a row" where
  "to_row d g =
     \<lparr>station_id = station_id d, data_source = data_source d, operator = operator d,
      street = street d, postcode = postcode d, town = town d,
      socket_type_list = socket_type_list d, geometry = g,
      is_duplicate = False, merged_attributes = False, attrs = attrs d\<rparr>"

text \<open>\<^verbatim>\<open>dropna(subset=["coordinates"])\<close> after \<^verbatim>\<open>apply(get_wkt)\<close>.\<close>

fun load_coordinates :: "(string \<Rightarrow> geometry option) \<Rightarrow> 'a station_dict list \<Rightarrow> 'a row list" where
  "load_coordinates wkt_loads [] = []"
| "load_coordinates wkt_loads (d # ds) =
     (case get_wkt wkt_loads (geometry d) of
        None \<Rightarrow> load_coordinates wkt_loads ds
      | Some g \<Rightarrow> to_row d g # load_coordinates wkt_loads ds)"

text \<open>\<^verbatim>\<open>drop_duplicates(subset=["id"])\<close> keeps the first row of each identifier.\<close>

fun drop_duplicates :: "string list \<Rightarrow> 'a row list \<Rightarrow> 'a row list" where
  "drop_duplicates seen [] = []"
| "drop_duplicates seen (r # rs) =
     (if station_id r \<in> set seen then drop_duplicates seen rs
      else r # drop_duplicates (station_id r # seen) rs)"

text \<open>
  \<^verbatim>\<open>reset_index(drop=True)\<close> labels the rows that are left \<open>0, 1, ...\<close>; the shuffle
  moves rows together with their labels. On an empty list \<^verbatim>\<open>json_normalize\<close> gives a
  frame without columns, and \<^verbatim>\<open>drop\<close> of the two \<^verbatim>\<open>station_id\<close> columns raises.
\<close>

definition prepare_geodataframe ::
  "(string \<Rightarrow> geometry option) \<Rightarrow> ('a frame \<Rightarrow> 'a frame) \<Rightarrow> 'a station_dict list
     \<Rightarrow> error + 'a frame" where
  "prepare_geodataframe wkt_loads sample data_sources =
     (if data_sources = [] then Inl (KeyError ''address.station_id'')
      else
        let stations_df = load_coordinates wkt_loads data_sources;
            stations_gdf = drop_duplicates [] stations_df;
            kept = filter (\<lambda>r. operator r \<noteq> None \<and> socket_type_list r \<noteq> None) stations_gdf
        in Inr (sample (zip [0..<length kept] kept)))"

subsection \<open>\<^verbatim>\<open>_get_duplicate_candidates\<close>\<close>

definition get_duplicate_candidates ::
  "(nat \<Rightarrow> nat list) \<Rightarrow> 'a frame \<Rightarrow> nat \<times> 'a row \<Rightarrow> real \<Rightarrow> 'a candidate list" where
  "get_duplicate_candidates knn stations_gdf current_station max_distance =
     (case current_station of (current_station_id, cur) \<Rightarrow>
        let knn_neighbors = knn current_station_id;
            neighbors = filter (\<lambda>(l, r). l \<in> set knn_neighbors \<and> is_duplicate r \<noteq> True) stations_gdf;
            neighbor_distances =
              map (\<lambda>(l, r). (l, haversine_distance
                     (minx (geometry r), miny (geometry r), minx (geometry cur), miny (geometry cur))
                     True 6371)) neighbors;
            relevant_neighbors = filter (\<lambda>(l, d). d < max_distance) neighbor_distances
        in if relevant_neighbors = [] then []
           else concat (map (\<lambda>(l, d).
                  map (\<lambda>(l', r). \<lparr>lbl = l, distance_meter = d, row = r\<rparr>)
                      (filter (\<lambda>(l', r). l' = l) stations_gdf)) relevant_neighbors))"

subsection \<open>\<^verbatim>\<open>_determine_duplicates\<close>\<close>

definition default_score_weights :: "(string \<times> real) list" where
  "default_score_weights = [(''operator'', 0.2), (''address'', 0.1), (''distance'', 0.7)]"

text \<open>\<^verbatim>\<open>score_weights if score_weights else dict(...)\<close>: \<^verbatim>\<open>None\<close> and the empty dict are falsy.\<close>

definition weights_or_default :: "(string \<times> real) list option \<Rightarrow> (string \<times> real) list" where
  "weights_or_default score_weights =
     (case score_weights of None \<Rightarrow> default_score_weights
      | Some ws \<Rightarrow> if ws = [] then default_score_weights else ws)"

definition getitem :: "(string \<times> real) list \<Rightarrow> string \<Rightarrow> error + real" where
  "getitem d k = (case map_of d k of None \<Rightarrow> Inl (KeyError k) | Some v \<Rightarrow> Inr v)"

text \<open>An f-string prints \<^verbatim>\<open>None\<close> as the four letters.\<close>

definition fmt :: "string option \<Rightarrow> string" where
  "fmt x = (case x of None \<Rightarrow> ''None'' | Some s \<Rightarrow> s)"

definition address_of :: "('g, 'a) station \<Rightarrow> string" where
  "address_of x = fmt (street x) @ fmt (postcode x) @ fmt (town x)"

definition operator_match_of :: "(string \<Rightarrow> string \<Rightarrow> real) \<Rightarrow> 'a row \<Rightarrow> 'a row \<Rightarrow> real" where
  "operator_match_of ratio current_station x =
     (case (operator current_station, operator x) of
        (Some a, Some b) \<Rightarrow> ratio a b
      | _ \<Rightarrow> 0.0)"

definition address_match_of :: "(string \<Rightarrow> string \<Rightarrow> real) \<Rightarrow> string \<Rightarrow> string \<Rightarrow> real" where
  "address_match_of ratio current_station_address x =
     (if current_station_address \<noteq> ''NoneNoneNone'' \<and> x \<noteq> ''NoneNoneNone''
      then ratio current_station_address x else 0.0)"

definition score_candidate ::
  "(string \<Rightarrow> string \<Rightarrow> real) \<Rightarrow> 'a row \<Rightarrow> real \<Rightarrow> real \<Rightarrow> real \<Rightarrow> real \<Rightarrow> real
     \<Rightarrow> 'a candidate \<Rightarrow> 'a scored" where
  "score_candidate ratio current_station score_threshold max_distance w_operator w_address w_distance c =
     (let om = operator_match_of ratio current_station (row c);
          ad = address_of (row c);
          am = address_match_of ratio (address_of current_station) ad;
          operator_score = w_operator * om;
          address_score = w_address * am;
          distance_score = w_distance * (1 - distance_meter c / max_distance);
          ms = operator_score + address_score + distance_score
      in \<lparr>lbl = lbl c, distance_meter = distance_meter c,
          row = (if ms > score_threshold then (row c)\<lparr>is_duplicate := True\<rparr> else row c),
          operator_match = om, address = ad, address_match = am, matching_score = ms\<rparr>)"

definition determine_duplicates ::
  "(string \<Rightarrow> string \<Rightarrow> real) \<Rightarrow> 'a row \<Rightarrow> 'a candidate list \<Rightarrow> real \<Rightarrow> real
     \<Rightarrow> (string \<times> real) list option \<Rightarrow> error + 'a scored list" where
  "determine_duplicates ratio current_station duplicate_candidates score_threshold max_distance score_weights =
     (let score_weights = weights_or_default score_weights
      in (case getitem score_weights ''operator'' of Inl e \<Rightarrow> Inl e | Inr w_operator \<Rightarrow>
         (case getitem score_weights ''address'' of Inl e \<Rightarrow> Inl e | Inr w_address \<Rightarrow>
         (case getitem score_weights ''distance'' of Inl e \<Rightarrow> Inl e | Inr w_distance \<Rightarrow>
         (if max_distance = 0 then Inl NonFinite
          else Inr (filter (\<lambda>c. is_duplicate (row c))
                 (map (score_candidate ratio current_station score_threshold max_distance
                         w_operator w_address w_distance) duplicate_candidates)))))))"

subsection \<open>\<^verbatim>\<open>_merge_duplicates\<close>\<close>

definition data_sources_order :: "string list" where
  "data_sources_order = [''BNA'', ''OCM'', ''OSM'']"

definition ordered_data_source_pairs :: "(string \<times> string) list" where
  "ordered_data_source_pairs =
     [(x, y). x \<leftarrow> data_sources_order, y \<leftarrow> data_sources_order, x \<noteq> ''BNA'']"

text \<open>\<^verbatim>\<open>self.stations_gdf.loc[name] = selected_station\<close>, for a label of the frame.\<close>

definition loc_assign :: "'a frame \<Rightarrow> nat \<Rightarrow> 'a row \<Rightarrow> 'a frame" where
  "loc_assign stations_gdf name selected_station =
     map (\<lambda>(l, r). if l = name then (l, selected_station) else (l, r)) stations_gdf"

text \<open>The \<^verbatim>\<open>for\<close> loop over the pairs; the assignment is followed by \<^verbatim>\<open>break\<close>.\<close>

fun merge_pairs ::
  "'a frame \<Rightarrow> nat \<times> 'a row \<Rightarrow> 'a scored list \<Rightarrow> (string \<times> string) list \<Rightarrow> 'a frame" where
  "merge_pairs stations_gdf current_station duplicates [] = stations_gdf"
| "merge_pairs stations_gdf current_station duplicates
       ((current_data_source, duplicate_data_source) # pairs) =
     (if data_source (snd current_station) \<noteq> current_data_source
      then merge_pairs stations_gdf current_station duplicates pairs
      else (case filter (\<lambda>d. data_source (row d) = duplicate_data_source) duplicates of
              [] \<Rightarrow> merge_pairs stations_gdf current_station duplicates pairs
            | first # _ \<Rightarrow>
                loc_assign stations_gdf (fst current_station)
                  ((row first)\<lparr>is_duplicate := False, merged_attributes := True\<rparr>)))"

definition merge_duplicates :: "'a frame \<Rightarrow> nat \<times> 'a row \<Rightarrow> 'a scored list \<Rightarrow> 'a frame" where
  "merge_duplicates stations_gdf current_station duplicates =
     (if data_source (snd current_station) = ''BNA'' then stations_gdf
      else merge_pairs stations_gdf current_station duplicates ordered_data_source_pairs)"

subsection \<open>\<^verbatim>\<open>merge\<close>\<close>

text \<open>\<^verbatim>\<open>stations_gdf.loc[index.isin(duplicates.index), "is_duplicate"] = True\<close>\<close>

definition mark_duplicates :: "'a frame \<Rightarrow> 'a scored list \<Rightarrow> 'a frame" where
  "mark_duplicates stations_gdf duplicates =
     map (\<lambda>(l, r). if l \<in> set (map lbl duplicates) then (l, r\<lparr>is_duplicate := True\<rparr>) else (l, r))
       stations_gdf"

text \<open>The body of the loop, at position \<open>idx\<close>.\<close>

definition merge_step ::
  "(nat \<Rightarrow> nat list) \<Rightarrow> (string \<Rightarrow> string \<Rightarrow> real) \<Rightarrow> real \<Rightarrow> real \<Rightarrow> (string \<times> real) list option
     \<Rightarrow> nat \<Rightarrow> 'a frame \<Rightarrow> error + 'a frame" where
  "merge_step knn ratio score_threshold max_distance score_weights idx stations_gdf =
     (case drop idx stations_gdf of
        [] \<Rightarrow> Inl IndexError
      | current_station # _ \<Rightarrow>
          if is_duplicate (snd current_station) then Inr stations_gdf
          else
            let duplicate_candidates =
                  get_duplicate_candidates knn stations_gdf current_station max_distance
            in if duplicate_candidates = [] then Inr stations_gdf
               else (case determine_duplicates ratio (snd current_station) duplicate_candidates
                            score_threshold max_distance score_weights of
                       Inl e \<Rightarrow> Inl e
                     | Inr duplicates \<Rightarrow>
                         Inr (merge_duplicates (mark_duplicates stations_gdf duplicates)
                                current_station duplicates)))"

fun merge_loop ::
  "(nat \<Rightarrow> nat list) \<Rightarrow> (string \<Rightarrow> string \<Rightarrow> real) \<Rightarrow> real \<Rightarrow> real \<Rightarrow> (string \<times> real) list option
     \<Rightarrow> nat list \<Rightarrow> 'a frame \<Rightarrow> error + 'a frame" where
  "merge_loop knn ratio score_threshold max_distance score_weights [] stations_gdf = Inr stations_gdf"
| "merge_loop knn ratio score_threshold max_distance score_weights (idx # idxs) stations_gdf =
     (case merge_step knn ratio score_threshold max_distance score_weights idx stations_gdf of
        Inl e \<Rightarrow> Inl e
      | Inr stations_gdf' \<Rightarrow>
          merge_loop knn ratio score_threshold max_distance score_weights idxs stations_gdf')"

text \<open>\<^verbatim>\<open>stations_gdf.loc[~stations_gdf["is_duplicate"], :]\<close>\<close>

definition merged_stations :: "'a frame \<Rightarrow> 'a frame" where
  "merged_stations stations_gdf = filter (\<lambda>(l, r). \<not> is_duplicate r) stations_gdf"

text \<open>
  The state of a \<^verbatim>\<open>Merger\<close> after \<^verbatim>\<open>merge\<close>: the working set and the output.
\<close>

record 'a merger =
  stations_gdf_of :: "'a frame"
  merged_stations_gdf :: "'a frame"

text \<open>
  The part of \<^verbatim>\<open>merge\<close> before the frame is built: which records are merged.
  An exception of \<^verbatim>\<open>_load_data\<close> is caught and logged, and the method goes on with
  \<^verbatim>\<open>self.data_sources\<close> as the loader left it.
\<close>

definition merge_input ::
  "error + (string \<times> (error + 'a station_dict list)) list \<Rightarrow> 'a station_dict list
     \<Rightarrow> 'a station_dict list option \<Rightarrow> error + 'a station_dict list" where
  "merge_input listdir data_sources stations_list =
     (case stations_list of
        Some given \<Rightarrow>
          if length given < 1 then Inl (RuntimeError ''Your provided list of stations is empty!'')
          else Inr given
      | None \<Rightarrow>
          if length data_sources < 1 then Inr (snd (load_data False listdir data_sources))
          else Inr data_sources)"

definition merge ::
  "(string \<Rightarrow> geometry option) \<Rightarrow> ('a frame \<Rightarrow> 'a frame)
     \<Rightarrow> ('a frame \<Rightarrow> error + (nat \<Rightarrow> nat list))
     \<Rightarrow> (string \<Rightarrow> string \<Rightarrow> real)
     \<Rightarrow> error + (string \<times> (error + 'a station_dict list)) list \<Rightarrow> 'a station_dict list
     \<Rightarrow> 'a station_dict list option \<Rightarrow> real \<Rightarrow> real \<Rightarrow> (string \<times> real) list option
     \<Rightarrow> error + 'a merger" where
  "merge wkt_loads sample knn_from_dataframe ratio listdir data_sources
         stations_list score_threshold max_distance score_weights =
     (let score_weights = Some (weights_or_default score_weights)
      in case merge_input listdir data_sources stations_list of
           Inl e \<Rightarrow> Inl e
         | Inr data_sources \<Rightarrow>
             (case prepare_geodataframe wkt_loads sample data_sources of
                Inl e \<Rightarrow> Inl e
              | Inr stations_gdf \<Rightarrow>
                  (case knn_from_dataframe stations_gdf of
                     Inl e \<Rightarrow> Inl e
                   | Inr knn3 \<Rightarrow>
                       (case merge_loop knn3 ratio score_threshold max_distance score_weights
                               [0..<length stations_gdf] stations_gdf of
                          Inl e \<Rightarrow> Inl e
                        | Inr stations_gdf' \<Rightarrow>
                            Inr \<lparr>stations_gdf_of = stations_gdf',
                                 merged_stations_gdf = merged_stations stations_gdf'\<rparr>))))"

subsection \<open>Notions used in the statements\<close>

text \<open>
  The distance that the candidate selector computes between the query station and a row,
  and the identifiers of the rows of the output.
\<close>

definition dist_to :: "'a row \<Rightarrow> 'a row \<Rightarrow> real" where
  "dist_to cur r = haversine_distance
     (minx (geometry r), miny (geometry r), minx (geometry cur), miny (geometry cur)) True 6371"

definition output_ids :: "'a frame \<Rightarrow> string list" where
  "output_ids f = map (\<lambda>x. station_id (snd x)) (merged_stations f)"

text \<open>
  The default arguments of \<^verbatim>\<open>merge\<close>:
  \<^verbatim>\<open>score_threshold: float = 0.49\<close> and \<^verbatim>\<open>max_distance: int = 100\<close>.
\<close>

definition default_score_threshold :: real where "default_score_threshold = 0.49"

definition default_max_distance :: real where "default_max_distance = 100"

subsection \<open>Example data\<close>

text \<open>
  Two stations at the same coordinates with the same operator and address, one from BNA
  and one from OCM, in both visiting orders; a station without operator; a directory whose
  second file does not parse. \<open>test_ratio\<close> agrees with \<^verbatim>\<open>SequenceMatcher.ratio\<close>
  on the strings of the examples, which are equal (ratio 1). \<open>knn_pair\<close> is the neighbour
  table of two points, \<open>keep_order\<close> the shuffle that leaves the order as it is, and
  \<open>wkt_point\<close> parses the one WKT string of the examples.
\<close>

definition test_ratio :: "string \<Rightarrow> string \<Rightarrow> real" where
  "test_ratio a b = (if a = b then 1 else 0)"

definition bna_station :: "unit row" where
  "bna_station =
     \<lparr>station_id = ''id_bna'', data_source = ''BNA'', operator = Some ''EnBW'',
      street = Some ''Hauptstr'', postcode = Some ''70173'', town = Some ''Stuttgart'',
      socket_type_list = Some [''Type2''], geometry = \<lparr>minx = 9, miny = 48\<rparr>,
      is_duplicate = False, merged_attributes = False, attrs = ()\<rparr>"

definition ocm_station :: "unit row" where
  "ocm_station =
     \<lparr>station_id = ''id_ocm'', data_source = ''OCM'', operator = Some ''EnBW'',
      street = Some ''Hauptstr'', postcode = Some ''70173'', town = Some ''Stuttgart'',
      socket_type_list = Some [''Type2''], geometry = \<lparr>minx = 9, miny = 48\<rparr>,
      is_duplicate = False, merged_attributes = False, attrs = ()\<rparr>"

definition knn_pair :: "nat \<Rightarrow> nat list" where
  "knn_pair l = (if l = 0 then [1] else if l = 1 then [0] else [])"

definition bna_first :: "unit frame" where
  "bna_first = [(0, bna_station), (1, ocm_station)]"

definition ocm_first :: "unit frame" where
  "ocm_first = [(0, ocm_station), (1, bna_station)]"

definition scored_ocm :: "unit scored" where
  "scored_ocm = \<lparr>lbl = 1, distance_meter = 0, row = ocm_station\<lparr>is_duplicate := True\<rparr>,
         operator_match = 1, address = ''Hauptstr70173Stuttgart'', address_match = 1,
         matching_score = 1\<rparr>"

definition scored_bna :: "unit scored" where
  "scored_bna = \<lparr>lbl = 1, distance_meter = 0, row = bna_station\<lparr>is_duplicate := True\<rparr>,
         operator_match = 1, address = ''Hauptstr70173Stuttgart'', address_match = 1,
         matching_score = 1\<rparr>"

definition bna_first_merged :: "unit frame" where
  "bna_first_merged = [(0, bna_station), (1, ocm_station\<lparr>is_duplicate := True\<rparr>)]"

definition ocm_first_merged :: "unit frame" where
  "ocm_first_merged =
     [(0, bna_station\<lparr>is_duplicate := False, merged_attributes := True\<rparr>),
      (1, bna_station\<lparr>is_duplicate := True\<rparr>)]"

definition negative_weights :: "(string \<times> real) list" where
  "negative_weights = [(''operator'', 0), (''address'', 0), (''distance'', - 1)]"

definition near_candidate :: "unit candidate" where
  "near_candidate = \<lparr>lbl = 1, distance_meter = 0, row = ocm_station\<rparr>"

definition far_candidate :: "unit candidate" where
  "far_candidate = \<lparr>lbl = 1, distance_meter = 50, row = ocm_station\<rparr>"

definition bna_dict :: "unit station_dict" where
  "bna_dict =
     \<lparr>station_id = ''id_bna'', data_source = ''BNA'', operator = Some ''EnBW'',
      street = Some ''Hauptstr'', postcode = Some ''70173'', town = Some ''Stuttgart'',
      socket_type_list = Some [''Type2''], geometry = Some ''POINT (9 48)'',
      is_duplicate = False, merged_attributes = False, attrs = ()\<rparr>"

definition ocm_dict :: "unit station_dict" where
  "ocm_dict =
     \<lparr>station_id = ''id_ocm'', data_source = ''OCM'', operator = Some ''EnBW'',
      street = Some ''Hauptstr'', postcode = Some ''70173'', town = Some ''Stuttgart'',
      socket_type_list = Some [''Type2''], geometry = Some ''POINT (9 48)'',
      is_duplicate = False, merged_attributes = False, attrs = ()\<rparr>"

definition osm_dict_no_operator :: "unit station_dict" where
  "osm_dict_no_operator =
     \<lparr>station_id = ''id_osm'', data_source = ''OSM'', operator = None,
      street = None, postcode = None, town = None,
      socket_type_list = Some [''Type2''], geometry = Some ''POINT (9 48)'',
      is_duplicate = False, merged_attributes = False, attrs = ()\<rparr>"

definition wkt_point :: "string \<Rightarrow> geometry option" where
  "wkt_point s = (if s = ''POINT (9 48)'' then Some \<lparr>minx = 9, miny = 48\<rparr> else None)"

definition keep_order :: "unit frame \<Rightarrow> unit frame" where
  "keep_order z = z"

definition knn_of_pair :: "unit frame \<Rightarrow> error + (nat \<Rightarrow> nat list)" where
  "knn_of_pair z = Inr knn_pair"

definition no_files :: "error + (string \<times> (error + unit station_dict list)) list" where
  "no_files = Inr []"

definition broken_second_file :: "error + (string \<times> (error + unit station_dict list)) list" where
  "broken_second_file =
     Inr [(''OCM__processed.json'', Inr [ocm_dict, bna_dict]),
          (''OSM__processed.json'', Inl (IOError ''Expecting value: line 1 column 1 (char 0)''))]"

definition ocm_first_result :: "unit merger" where
  "ocm_first_result =
     \<lparr>stations_gdf_of = ocm_first_merged,
      merged_stations_gdf = [(0, bna_station\<lparr>is_duplicate := False, merged_attributes := True\<rparr>)]\<rparr>"

section \<open>Properties of the functions\<close>

lemma haversine_same: "haversine_distance (x, y, x, y) t R = 0"
  by (simp add: haversine_distance_def)

lemma matching_score_formula:
  "matching_score (score_candidate ratio cur thr maxd wo wa wd c) =
     wo * operator_match_of ratio cur (row c)
     + wa * address_match_of ratio (address_of cur) (address_of (row c))
     + wd * (1 - distance_meter c / maxd)"
  by (simp add: score_candidate_def Let_def)

lemma score_fields:
  "operator_match (score_candidate ratio cur thr maxd wo wa wd c) = operator_match_of ratio cur (row c)"
  "address_match (score_candidate ratio cur thr maxd wo wa wd c) = address_match_of ratio (address_of cur) (address_of (row c))"
  "lbl (score_candidate ratio cur thr maxd wo wa wd c) = lbl c"
  "distance_meter (score_candidate ratio cur thr maxd wo wa wd c) = distance_meter c"
  "row (score_candidate ratio cur thr maxd wo wa wd c) =
     (if matching_score (score_candidate ratio cur thr maxd wo wa wd c) > thr
      then (row c)\<lparr>is_duplicate := True\<rparr> else row c)"
  by (simp_all add: score_candidate_def Let_def)

lemma determine_duplicates_Inr:
  assumes "determine_duplicates ratio cur cands thr maxd sw = Inr dups"
  obtains wo wa wd where
    "getitem (weights_or_default sw) ''operator'' = Inr wo"
    "getitem (weights_or_default sw) ''address'' = Inr wa"
    "getitem (weights_or_default sw) ''distance'' = Inr wd"
    "maxd \<noteq> 0"
    "dups = filter (\<lambda>c. is_duplicate (row c)) (map (score_candidate ratio cur thr maxd wo wa wd) cands)"
  using assms
  by (auto simp: determine_duplicates_def Let_def split: sum.splits if_splits)

lemma filter_label_distinct:
  "distinct (map fst xs) \<Longrightarrow> (l, r) \<in> set xs \<Longrightarrow> filter (\<lambda>(l', r'). l' = l) xs = [(l, r)]"
proof (induction xs)
  case Nil
  then show ?case by simp
next
  case (Cons x xs)
  obtain l0 r0 where x: "x = (l0, r0)" by (cases x)
  show ?case
  proof (cases "l0 = l")
    case True
    with Cons.prems x have "r0 = r" by (auto simp: image_iff)
    moreover have "filter (\<lambda>(l', r'). l' = l) xs = []"
      using Cons.prems x True by (auto simp: filter_empty_conv image_iff)
    ultimately show ?thesis using x True by simp
  next
    case False
    with Cons x show ?thesis by auto
  qed
qed

lemma concat_map_singleton_on:
  "(\<And>z. z \<in> set zs \<Longrightarrow> F z = [h z]) \<Longrightarrow> concat (map F zs) = map h zs"
  by (induction zs) auto

lemma get_duplicate_candidates_distinct:
  assumes "distinct (map fst gdf)"
  shows "get_duplicate_candidates knn gdf (name, cur) maxd =
     map (\<lambda>(l, r). \<lparr>lbl = l, distance_meter = dist_to cur r, row = r\<rparr>)
       (filter (\<lambda>(l, r). l \<in> set (knn name) \<and> \<not> is_duplicate r \<and> dist_to cur r < maxd) gdf)"
proof -
  let ?nb = "filter (\<lambda>(l, r). l \<in> set (knn name) \<and> is_duplicate r \<noteq> True) gdf"
  let ?g = "\<lambda>(l, r). (l, dist_to cur r)"
  let ?rel = "filter (\<lambda>(l, d). d < maxd) (map ?g ?nb)"
  let ?F = "\<lambda>(l, d). map (\<lambda>(l', r). \<lparr>lbl = l, distance_meter = d, row = r\<rparr>)
                      (filter (\<lambda>(l', r). l' = l) gdf)"
  let ?h = "\<lambda>(l, r). \<lparr>lbl = l, distance_meter = dist_to cur r, row = r\<rparr>"
  let ?zs = "filter (\<lambda>(l, r). l \<in> set (knn name) \<and> \<not> is_duplicate r \<and> dist_to cur r < maxd) gdf"
  have rel: "?rel = map ?g ?zs"
    by (simp add: filter_map comp_def case_prod_unfold conj_commute conj_left_commute)
  have "concat (map ?F ?rel) = concat (map (?F \<circ> ?g) ?zs)"
    by (simp only: rel map_map)
  also have "\<dots> = map ?h ?zs"
  proof (rule concat_map_singleton_on)
    fix z assume "z \<in> set ?zs"
    then have zin: "z \<in> set gdf" by simp
    obtain l r where z: "z = (l, r)" by (cases z)
    with zin show "(?F \<circ> ?g) z = [?h z]"
      using filter_label_distinct[OF assms, of l r] by simp
  qed
  finally have c: "concat (map ?F ?rel) = map ?h ?zs" .
  have "get_duplicate_candidates knn gdf (name, cur) maxd =
          (if ?rel = [] then [] else concat (map ?F ?rel))"
    by (simp add: get_duplicate_candidates_def dist_to_def Let_def)
  also have "\<dots> = map ?h ?zs"
    using c rel by (cases "?zs = []") simp_all
  finally show ?thesis .
qed

lemma determine_duplicates_general:
  assumes "determine_duplicates ratio cur cands thr maxd sw = Inr dups"
  obtains wo wa wd where
    "getitem (weights_or_default sw) ''operator'' = Inr wo"
    "getitem (weights_or_default sw) ''address'' = Inr wa"
    "getitem (weights_or_default sw) ''distance'' = Inr wd"
    "maxd \<noteq> 0"
    "dups = map (score_candidate ratio cur thr maxd wo wa wd)
              (filter (\<lambda>c. matching_score (score_candidate ratio cur thr maxd wo wa wd c) > thr
                           \<or> is_duplicate (row c)) cands)"
proof -
  from assms obtain wo wa wd where w:
    "getitem (weights_or_default sw) ''operator'' = Inr wo"
    "getitem (weights_or_default sw) ''address'' = Inr wa"
    "getitem (weights_or_default sw) ''distance'' = Inr wd"
    "maxd \<noteq> 0"
    and d: "dups = filter (\<lambda>c. is_duplicate (row c)) (map (score_candidate ratio cur thr maxd wo wa wd) cands)"
    by (rule determine_duplicates_Inr)
  have "dups = map (score_candidate ratio cur thr maxd wo wa wd)
              (filter (\<lambda>c. matching_score (score_candidate ratio cur thr maxd wo wa wd c) > thr
                           \<or> is_duplicate (row c)) cands)"
    unfolding d filter_map comp_def
    by (rule arg_cong[where f="map _"], rule filter_cong) (auto simp: score_fields)
  with w show ?thesis by (rule that)
qed

lemma ordered_data_source_pairs_eq:
  "ordered_data_source_pairs =
     [(''OCM'', ''BNA''), (''OCM'', ''OCM''), (''OCM'', ''OSM''),
      (''OSM'', ''BNA''), (''OSM'', ''OCM''), (''OSM'', ''OSM'')]"
  by (simp add: ordered_data_source_pairs_def data_sources_order_def)

lemma merge_pairs_find:
  "merge_pairs gdf (name, cur) dups ps =
     (case find (\<lambda>(c, d). c = data_source cur \<and> (\<exists>x \<in> set dups. data_source (row x) = d)) ps of
        None \<Rightarrow> gdf
      | Some (c, d) \<Rightarrow>
          loc_assign gdf name
            ((row (hd (filter (\<lambda>x. data_source (row x) = d) dups)))
               \<lparr>is_duplicate := False, merged_attributes := True\<rparr>))"
proof (induction ps)
  case Nil
  then show ?case by simp
next
  case (Cons p ps)
  obtain c d where p: "p = (c, d)" by (cases p)
  have e: "filter (\<lambda>x. data_source (row x) = d) dups = []
             \<longleftrightarrow> \<not> (\<exists>x \<in> set dups. data_source (row x) = d)"
    by (auto simp: filter_empty_conv)
  show ?case
  proof (cases "filter (\<lambda>x. data_source (row x) = d) dups")
    case Nil
    with e Cons.IH p show ?thesis by simp
  next
    case fr: (Cons first rest)
    with e have "\<exists>x \<in> set dups. data_source (row x) = d" by simp
    with fr Cons.IH p show ?thesis by simp
  qed
qed

lemma map_fst_loc_assign [simp]: "map fst (loc_assign f n s) = map fst f"
  by (induction f) (auto simp: loc_assign_def)

lemma map_fst_mark_duplicates [simp]: "map fst (mark_duplicates f d) = map fst f"
  by (induction f) (auto simp: mark_duplicates_def)

lemma length_loc_assign [simp]: "length (loc_assign f n s) = length f"
  by (simp add: loc_assign_def)

lemma length_mark_duplicates [simp]: "length (mark_duplicates f d) = length f"
  by (simp add: mark_duplicates_def)

lemma nth_loc_assign:
  "i < length f \<Longrightarrow> loc_assign f n s ! i = (if fst (f ! i) = n then (n, s) else f ! i)"
  by (simp add: loc_assign_def case_prod_unfold)

lemma nth_mark_duplicates:
  "i < length f \<Longrightarrow> mark_duplicates f d ! i =
     (if fst (f ! i) \<in> lbl ` set d then (fst (f ! i), (snd (f ! i))\<lparr>is_duplicate := True\<rparr>) else f ! i)"
  by (simp add: mark_duplicates_def case_prod_unfold)

lemma find_SomeD: "find P xs = Some x \<Longrightarrow> P x \<and> x \<in> set xs"
  by (induction xs) (auto split: if_splits)

lemma merge_duplicates_cases:
  obtains (same) "merge_duplicates f (name, cur) dups = f"
  | (replaced) first where "first \<in> set dups" "data_source cur \<noteq> ''BNA''"
      "merge_duplicates f (name, cur) dups =
         loc_assign f name ((row first)\<lparr>is_duplicate := False, merged_attributes := True\<rparr>)"
proof (cases "find (\<lambda>(c, d). c = data_source cur \<and> (\<exists>x \<in> set dups. data_source (row x) = d))
                ordered_data_source_pairs")
  case None
  then have "merge_duplicates f (name, cur) dups = f"
    by (simp add: merge_duplicates_def merge_pairs_find)
  then show ?thesis by (rule same)
next
  case (Some p)
  obtain c d where p: "p = (c, d)" by (cases p)
  show ?thesis
  proof (cases "data_source cur = ''BNA''")
    case True
    then have "merge_duplicates f (name, cur) dups = f" by (simp add: merge_duplicates_def)
    then show ?thesis by (rule same)
  next
    case False
    from Some p have "\<exists>x \<in> set dups. data_source (row x) = d"
      by (auto dest: find_SomeD)
    then have ne: "filter (\<lambda>x. data_source (row x) = d) dups \<noteq> []"
      by (auto simp: filter_empty_conv)
    then have "hd (filter (\<lambda>x. data_source (row x) = d) dups) \<in> set (filter (\<lambda>x. data_source (row x) = d) dups)"
      by (rule hd_in_set)
    then have hin: "hd (filter (\<lambda>x. data_source (row x) = d) dups) \<in> set dups" by simp
    have "merge_duplicates f (name, cur) dups =
         loc_assign f name ((row (hd (filter (\<lambda>x. data_source (row x) = d) dups)))
            \<lparr>is_duplicate := False, merged_attributes := True\<rparr>)"
      using False Some p by (simp add: merge_duplicates_def merge_pairs_find)
    with hin False show ?thesis by (intro replaced) simp_all
  qed
qed

lemma merge_step_cases:
  assumes "merge_step knn ratio thr maxd sw idx f = Inr g"
  obtains (skip) "g = f"
  | (run) name cur rest dups where
      "drop idx f = (name, cur) # rest" "\<not> is_duplicate cur"
      "get_duplicate_candidates knn f (name, cur) maxd \<noteq> []"
      "determine_duplicates ratio cur (get_duplicate_candidates knn f (name, cur) maxd) thr maxd sw = Inr dups"
      "g = merge_duplicates (mark_duplicates f dups) (name, cur) dups"
proof (cases "drop idx f")
  case Nil
  with assms show ?thesis by (simp add: merge_step_def)
next
  case (Cons x rest)
  obtain name cur where x: "x = (name, cur)" by (cases x)
  show ?thesis
  proof (cases "is_duplicate cur \<or> get_duplicate_candidates knn f (name, cur) maxd = []")
    case True
    with assms Cons x have "g = f" by (auto simp: merge_step_def Let_def split: if_splits)
    then show ?thesis by (rule skip)
  next
    case False
    with assms Cons x obtain dups where
      d: "determine_duplicates ratio cur (get_duplicate_candidates knn f (name, cur) maxd) thr maxd sw = Inr dups"
      and g: "g = merge_duplicates (mark_duplicates f dups) (name, cur) dups"
      by (auto simp: merge_step_def Let_def split: sum.splits)
    from Cons x False d g show ?thesis by (intro run[of name cur rest dups]) simp_all
  qed
qed

lemma drop_Cons_nth: "drop i xs = x # rest \<Longrightarrow> i < length xs \<and> xs ! i = x"
  by (metis drop_eq_Nil2 hd_drop_conv_nth list.distinct(1) list.sel(1) not_le)

lemma merge_loop_induct:
  assumes "merge_loop knn ratio thr maxd sw idxs f = Inr f'"
    and "Q f"
    and "\<And>idx f g. Q f \<Longrightarrow> merge_step knn ratio thr maxd sw idx f = Inr g \<Longrightarrow> Q g"
  shows "Q f'"
  using assms(1,2)
proof (induction idxs arbitrary: f)
  case Nil
  then show ?case by simp
next
  case (Cons idx idxs)
  from Cons.prems(1) obtain g where
    s: "merge_step knn ratio thr maxd sw idx f = Inr g"
    and l: "merge_loop knn ratio thr maxd sw idxs g = Inr f'"
    by (auto split: sum.splits)
  from assms(3)[OF Cons.prems(2) s] have "Q g" .
  with l show ?case by (rule Cons.IH)
qed

lemma merge_step_labels:
  assumes "merge_step knn ratio thr maxd sw idx f = Inr g"
  shows "map fst g = map fst f"
  using assms
proof (cases rule: merge_step_cases)
  case skip
  then show ?thesis by simp
next
  case (run name cur rest dups)
  show ?thesis
    by (cases rule: merge_duplicates_cases[of "mark_duplicates f dups" name cur dups])
       (simp_all add: run(5))
qed

lemma merge_loop_labels:
  assumes "merge_loop knn ratio thr maxd sw idxs f = Inr f'"
  shows "map fst f' = map fst f"
  by (rule merge_loop_induct[OF assms, where Q="\<lambda>g. map fst g = map fst f"])
     (simp_all add: merge_step_labels)

text \<open>what the flagged duplicates are\<close>
lemma duplicates_from_candidates:
  assumes "determine_duplicates ratio cur cands thr maxd sw = Inr dups" "d \<in> set dups"
  obtains c where "c \<in> set cands" "lbl d = lbl c"
     "row d = row c \<or> row d = (row c)\<lparr>is_duplicate := True\<rparr>"
proof -
  from assms(1) obtain wo wa wd where
    "dups = filter (\<lambda>c. is_duplicate (row c)) (map (score_candidate ratio cur thr maxd wo wa wd) cands)"
    by (rule determine_duplicates_Inr)
  with assms(2) obtain c where "c \<in> set cands" "d = score_candidate ratio cur thr maxd wo wa wd c"
    by auto
  then show ?thesis
    by (intro that[of c]) (simp_all add: score_fields)
qed

lemma candidates_in_frame:
  assumes "c \<in> set (get_duplicate_candidates knn f (name, cur) maxd)"
  shows "(lbl c, row c) \<in> set f \<and> lbl c \<in> set (knn name)"
  using assms
  by (auto simp: get_duplicate_candidates_def Let_def split: if_splits)

lemma in_set_mark_duplicates:
  assumes "(l, r) \<in> set (mark_duplicates f dups)"
  obtains r0 where "(l, r0) \<in> set f"
    "(l \<notin> lbl ` set dups \<and> r = r0) \<or> (l \<in> lbl ` set dups \<and> r = r0\<lparr>is_duplicate := True\<rparr>)"
  using assms by (auto simp: mark_duplicates_def split: if_splits)

lemma in_set_loc_assign:
  assumes "(l, r) \<in> set (loc_assign f n s)"
  shows "(l = n \<and> r = s) \<or> (l \<noteq> n \<and> (l, r) \<in> set f)"
  using assms by (auto simp: loc_assign_def split: if_splits)

text \<open>the rows a flagged duplicate can carry\<close>
lemma duplicate_rows:
  assumes "distinct (map fst f)"
    and "determine_duplicates ratio cur (get_duplicate_candidates knn f (name, cur) maxd) thr maxd sw = Inr dups"
    and "d \<in> set dups"
  obtains r0 where "(lbl d, r0) \<in> set f" "\<not> is_duplicate r0" "lbl d \<in> set (knn name)"
    "row d = r0\<lparr>is_duplicate := True\<rparr>"
proof -
  let ?cands = "get_duplicate_candidates knn f (name, cur) maxd"
  from assms(2) obtain wo wa wd where
    "dups = filter (\<lambda>c. is_duplicate (row c)) (map (score_candidate ratio cur thr maxd wo wa wd) ?cands)"
    by (rule determine_duplicates_Inr)
  with assms(3) obtain c where c: "c \<in> set ?cands" "d = score_candidate ratio cur thr maxd wo wa wd c"
    "is_duplicate (row d)"
    by auto
  from c(1) have nd: "\<not> is_duplicate (row c)"
    unfolding get_duplicate_candidates_distinct[OF assms(1)] by auto
  from c(1) have inf: "(lbl c, row c) \<in> set f \<and> lbl c \<in> set (knn name)"
    by (rule candidates_in_frame)
  from c(2,3) nd have "row d = (row c)\<lparr>is_duplicate := True\<rparr>"
    by (auto simp: score_fields split: if_splits)
  with nd inf c(2) show ?thesis
    by (intro that[of "row c"]) (simp_all add: score_fields)
qed

lemma merge_step_rows:
  assumes "merge_step knn ratio thr maxd sw idx f = Inr g"
    and "distinct (map fst f)"
    and "\<forall>(l, r) \<in> set f. P r"
    and "\<And>r b. P r \<Longrightarrow> P (r\<lparr>is_duplicate := b\<rparr>)"
    and "\<And>r b. P r \<Longrightarrow> P (r\<lparr>merged_attributes := b\<rparr>)"
  shows "\<forall>(l, r) \<in> set g. P r"
  using assms(1)
proof (cases rule: merge_step_cases)
  case skip
  with assms(3) show ?thesis by simp
next
  case (run name cur rest dups)
  have m: "\<forall>(l, r) \<in> set (mark_duplicates f dups). P r"
  proof clarify
    fix l r assume "(l, r) \<in> set (mark_duplicates f dups)"
    then obtain r0 where "(l, r0) \<in> set f" "r = r0 \<or> r = r0\<lparr>is_duplicate := True\<rparr>"
      by (rule in_set_mark_duplicates) auto
    with assms(3,4) show "P r" by auto
  qed
  show ?thesis
  proof (cases rule: merge_duplicates_cases[of "mark_duplicates f dups" name cur dups])
    case same
    with m run(5) show ?thesis by simp
  next
    case (replaced first)
    from assms(2) run(4) replaced(1) obtain r0 where
      "(lbl first, r0) \<in> set f" "row first = r0\<lparr>is_duplicate := True\<rparr>"
      by (rule duplicate_rows)
    with assms(3) have "P r0" by auto
    then have "P ((row first)\<lparr>is_duplicate := False, merged_attributes := True\<rparr>)"
      using assms(4,5) \<open>row first = _\<close> by simp
    with m show ?thesis
      unfolding run(5) replaced(3) by (auto dest!: in_set_loc_assign)
  qed
qed

lemma merge_step_dup_mono:
  assumes "merge_step knn ratio thr maxd sw idx f = Inr g"
    and "distinct (map fst f)" "i < length f" "is_duplicate (snd (f ! i))"
  shows "is_duplicate (snd (g ! i))"
  using assms(1)
proof (cases rule: merge_step_cases)
  case skip
  with assms(4) show ?thesis by simp
next
  case (run name cur rest dups)
  from run(1) have idx: "idx < length f" "f ! idx = (name, cur)"
    by (auto dest: drop_Cons_nth)
  with run(2) assms(4) have "i \<noteq> idx" by auto
  with assms(2,3) idx have ne: "fst (f ! i) \<noteq> name"
    by (metis fst_conv length_map nth_eq_iff_index_eq nth_map)
  have m: "is_duplicate (snd (mark_duplicates f dups ! i))"
    using assms(3,4) by (simp add: nth_mark_duplicates)
  have l: "fst (mark_duplicates f dups ! i) = fst (f ! i)"
    using assms(3) by (simp add: nth_mark_duplicates)
  show ?thesis
    by (cases rule: merge_duplicates_cases[of "mark_duplicates f dups" name cur dups])
       (use m l ne assms(3) in \<open>simp_all add: run(5) nth_loc_assign\<close>)
qed

lemma merge_loop_dup_mono:
  assumes "merge_loop knn ratio thr maxd sw idxs f = Inr f'"
    and "distinct (map fst f)" "i < length f" "is_duplicate (snd (f ! i))"
  shows "is_duplicate (snd (f' ! i))"
proof -
  have "map fst f' = map fst f \<and> is_duplicate (snd (f' ! i))"
  proof (rule merge_loop_induct[OF assms(1),
        where Q="\<lambda>g. map fst g = map fst f \<and> is_duplicate (snd (g ! i))"])
    show "map fst f = map fst f \<and> is_duplicate (snd (f ! i))" using assms(4) by simp
  next
    fix idx h g
    assume h: "map fst h = map fst f \<and> is_duplicate (snd (h ! i))"
      and s: "merge_step knn ratio thr maxd sw idx h = Inr g"
    from h have len: "length h = length f" by (metis length_map)
    from h assms(2) have "distinct (map fst h)" by simp
    from merge_step_dup_mono[OF s this] h assms(3) len merge_step_labels[OF s]
    show "map fst g = map fst f \<and> is_duplicate (snd (g ! i))" by simp
  qed
  then show ?thesis by simp
qed

lemma merge_step_marks:
  assumes "\<forall>l. l \<notin> set (knn l)" "distinct (map fst f)"
    and "drop idx f = (name, cur) # rest" "\<not> is_duplicate cur"
    and "determine_duplicates ratio cur (get_duplicate_candidates knn f (name, cur) maxd) thr maxd sw = Inr dups"
    and "i < length f" "fst (f ! i) \<in> lbl ` set dups"
    and "merge_step knn ratio thr maxd sw idx f = Inr g"
  shows "is_duplicate (snd (g ! i))"
proof -
  from assms(7) obtain d where d: "d \<in> set dups" "lbl d = fst (f ! i)" by auto
  from assms(2,5) d(1) have "lbl d \<in> set (knn name)" by (rule duplicate_rows)
  with assms(1) d(2) have ne: "fst (f ! i) \<noteq> name" by auto
  have cne: "get_duplicate_candidates knn f (name, cur) maxd \<noteq> []"
  proof
    assume "get_duplicate_candidates knn f (name, cur) maxd = []"
    with assms(5) have "dups = []"
      by (auto elim!: determine_duplicates_Inr)
    with d(1) show False by simp
  qed
  have g: "g = merge_duplicates (mark_duplicates f dups) (name, cur) dups"
    using assms(3,4,5,8) cne by (simp add: merge_step_def Let_def)
  have m: "is_duplicate (snd (mark_duplicates f dups ! i))"
    using assms(6,7) by (simp add: nth_mark_duplicates)
  have l: "fst (mark_duplicates f dups ! i) = fst (f ! i)"
    using assms(6) by (simp add: nth_mark_duplicates)
  show ?thesis
    by (cases rule: merge_duplicates_cases[of "mark_duplicates f dups" name cur dups])
       (use m l ne assms(6) in \<open>simp_all add: g nth_loc_assign\<close>)
qed

lemma dup_not_in_merged:
  assumes "distinct (map fst f)" "i < length f" "is_duplicate (snd (f ! i))"
  shows "fst (f ! i) \<notin> fst ` set (merged_stations f)"
proof
  assume "fst (f ! i) \<in> fst ` set (merged_stations f)"
  then obtain r where r: "(fst (f ! i), r) \<in> set f" "\<not> is_duplicate r"
    by (auto simp: merged_stations_def)
  then obtain j where j: "j < length f" "f ! j = (fst (f ! i), r)"
    by (auto simp: in_set_conv_nth)
  with assms(1,2) have "j = i"
    by (metis fst_conv length_map nth_eq_iff_index_eq nth_map)
  with j have "snd (f ! i) = r" by (metis snd_conv)
  with r assms(3) show False by simp
qed

lemma dup_not_candidate:
  assumes "distinct (map fst f)" "i < length f" "is_duplicate (snd (f ! i))"
  shows "fst (f ! i) \<notin> lbl ` set (get_duplicate_candidates knn f q maxd)"
proof
  assume "fst (f ! i) \<in> lbl ` set (get_duplicate_candidates knn f q maxd)"
  then obtain c where c: "c \<in> set (get_duplicate_candidates knn f q maxd)" "lbl c = fst (f ! i)"
    by auto
  obtain name cur where q: "q = (name, cur)" by (cases q)
  from c(1) have "(lbl c, row c) \<in> set f \<and> \<not> is_duplicate (row c)"
    unfolding q get_duplicate_candidates_distinct[OF assms(1)] by auto
  then have "(lbl c, row c) \<in> set (merged_stations f)"
    by (simp add: merged_stations_def)
  then have "fst (lbl c, row c) \<in> fst ` set (merged_stations f)"
    by (rule imageI)
  with c(2) have "fst (f ! i) \<in> fst ` set (merged_stations f)"
    by simp
  with dup_not_in_merged[OF assms] show False by simp
qed

lemma knn_pair_irrefl: "\<forall>l. l \<notin> set (knn_pair l)"
  by (simp add: knn_pair_def)

lemma dist_same: "geometry r = geometry cur \<Longrightarrow> dist_to cur r = 0"
  by (simp add: dist_to_def haversine_distance_def)

lemma ex_cands_bna:
  "get_duplicate_candidates knn_pair bna_first (0, bna_station) default_max_distance =
     [\<lparr>lbl = 1, distance_meter = 0, row = ocm_station\<rparr>]"
  by (simp add: get_duplicate_candidates_def bna_first_def knn_pair_def Let_def default_max_distance_def
      haversine_distance_def bna_station_def ocm_station_def)

lemma ex_dups_bna:
  "determine_duplicates test_ratio bna_station [\<lparr>lbl = 1, distance_meter = 0, row = ocm_station\<rparr>]
      default_score_threshold default_max_distance None =
   Inr [\<lparr>lbl = 1, distance_meter = 0, row = ocm_station\<lparr>is_duplicate := True\<rparr>,
         operator_match = 1, address = ''Hauptstr70173Stuttgart'', address_match = 1,
         matching_score = 1\<rparr>]"
  by (simp add: determine_duplicates_def weights_or_default_def default_score_weights_def
      default_max_distance_def default_score_threshold_def
      getitem_def score_candidate_def Let_def operator_match_of_def address_match_of_def
      address_of_def fmt_def test_ratio_def bna_station_def ocm_station_def)

lemma merge_step_run:
  assumes "drop idx f = (name, cur) # rest" "\<not> is_duplicate cur"
    and "get_duplicate_candidates knn f (name, cur) maxd = cands" "cands \<noteq> []"
    and "determine_duplicates ratio cur cands thr maxd sw = Inr dups"
  shows "merge_step knn ratio thr maxd sw idx f =
           Inr (merge_duplicates (mark_duplicates f dups) (name, cur) dups)"
  using assms by (simp add: merge_step_def Let_def)

lemma merge_step_skip:
  assumes "drop idx f = (name, cur) # rest" "is_duplicate cur"
  shows "merge_step knn ratio thr maxd sw idx f = Inr f"
  using assms by (simp add: merge_step_def)

lemma ex_drop0_bna: "drop 0 bna_first = (0, bna_station) # [(1, ocm_station)]"
  by (simp add: bna_first_def)

lemma ex_bna_live: "\<not> is_duplicate bna_station"
  by (simp add: bna_station_def)

lemma ex_step0_bna:
  "merge_step knn_pair test_ratio default_score_threshold default_max_distance None 0 bna_first =
     Inr [(0, bna_station), (1, ocm_station\<lparr>is_duplicate := True\<rparr>)]"
proof -
  have "merge_duplicates (mark_duplicates bna_first
           [\<lparr>lbl = 1, distance_meter = 0, row = ocm_station\<lparr>is_duplicate := True\<rparr>,
         operator_match = 1, address = ''Hauptstr70173Stuttgart'', address_match = 1,
         matching_score = 1\<rparr>]) (0, bna_station) 
           [\<lparr>lbl = 1, distance_meter = 0, row = ocm_station\<lparr>is_duplicate := True\<rparr>,
         operator_match = 1, address = ''Hauptstr70173Stuttgart'', address_match = 1,
         matching_score = 1\<rparr>] = [(0, bna_station), (1, ocm_station\<lparr>is_duplicate := True\<rparr>)]"
    by (simp add: merge_duplicates_def mark_duplicates_def bna_first_def)
       (simp add: bna_station_def)
  then show ?thesis
    using merge_step_run[OF ex_drop0_bna ex_bna_live ex_cands_bna _ ex_dups_bna] by simp
qed

lemma ex_loop_bna:
  "merge_loop knn_pair test_ratio default_score_threshold default_max_distance None [0, 1] bna_first =
     Inr [(0, bna_station), (1, ocm_station\<lparr>is_duplicate := True\<rparr>)]"
proof -
  have "merge_step knn_pair test_ratio default_score_threshold default_max_distance None 1 [(0, bna_station), (1, ocm_station\<lparr>is_duplicate := True\<rparr>)]
      = Inr [(0, bna_station), (1, ocm_station\<lparr>is_duplicate := True\<rparr>)]"
    by (rule merge_step_skip[where name=1 and cur="ocm_station\<lparr>is_duplicate := True\<rparr>" and rest="[]"])
       simp_all
  then show ?thesis
    by (simp only: merge_loop.simps ex_step0_bna sum.case)
qed

lemma merge_duplicates_first:
  assumes "data_source cur \<noteq> ''BNA''"
    and "find (\<lambda>(c, d). c = data_source cur \<and> (\<exists>x \<in> set dups. data_source (row x) = d))
           ordered_data_source_pairs = Some (c, d)"
  obtains first rest where
    "filter (\<lambda>x. data_source (row x) = d) dups = first # rest"
    "merge_duplicates gdf (name, cur) dups =
       loc_assign gdf name ((row first)\<lparr>is_duplicate := False, merged_attributes := True\<rparr>)"
proof -
  from assms(2) have "\<exists>x \<in> set dups. data_source (row x) = d"
    by (auto dest: find_SomeD)
  then have "filter (\<lambda>x. data_source (row x) = d) dups \<noteq> []"
    by (auto simp: filter_empty_conv)
  then obtain first rest where fr: "filter (\<lambda>x. data_source (row x) = d) dups = first # rest"
    by (cases "filter (\<lambda>x. data_source (row x) = d) dups") auto
  have "merge_duplicates gdf (name, cur) dups =
       loc_assign gdf name ((row first)\<lparr>is_duplicate := False, merged_attributes := True\<rparr>)"
    using assms fr by (simp add: merge_duplicates_def merge_pairs_find)
  with fr show ?thesis by (rule that)
qed

lemma in_merged_stations: "(l, r) \<in> set (merged_stations f) \<longleftrightarrow> (l, r) \<in> set f \<and> \<not> is_duplicate r"
  by (auto simp: merged_stations_def)

lemma in_output_ids: "s \<in> set (output_ids f) \<longleftrightarrow> (\<exists>l r. (l, r) \<in> set f \<and> \<not> is_duplicate r \<and> station_id r = s)"
proof
  assume "s \<in> set (output_ids f)"
  then obtain x where x: "x \<in> set (merged_stations f)" "station_id (snd x) = s"
    by (auto simp: output_ids_def)
  obtain l r where "x = (l, r)" by (cases x)
  with x show "\<exists>l r. (l, r) \<in> set f \<and> \<not> is_duplicate r \<and> station_id r = s"
    by (auto simp: in_merged_stations)
next
  assume "\<exists>l r. (l, r) \<in> set f \<and> \<not> is_duplicate r \<and> station_id r = s"
  then obtain l r where "(l, r) \<in> set (merged_stations f)" "s = station_id (snd (l, r))"
    by (auto simp: in_merged_stations)
  then show "s \<in> set (output_ids f)"
    unfolding output_ids_def set_map by (rule rev_image_eqI)
qed

text \<open>every live row of the marked frame is a live row of the frame, not among the duplicates\<close>
lemma live_mark_duplicates:
  assumes "(l, r) \<in> set (mark_duplicates f dups)" "\<not> is_duplicate r"
  shows "(l, r) \<in> set f \<and> l \<notin> lbl ` set dups"
  using assms(1)
proof (rule in_set_mark_duplicates)
  fix r0 assume "(l, r0) \<in> set f"
    "(l \<notin> lbl ` set dups \<and> r = r0) \<or> (l \<in> lbl ` set dups \<and> r = r0\<lparr>is_duplicate := True\<rparr>)"
  with assms(2) show ?thesis by auto
qed

lemma merge_step_ids_shrink:
  assumes "merge_step knn ratio thr maxd sw idx f = Inr g" "distinct (map fst f)"
  shows "set (output_ids g) \<subseteq> set (output_ids f)"
  using assms(1)
proof (cases rule: merge_step_cases)
  case skip
  then show ?thesis by simp
next
  case (run name cur rest dups)
  show ?thesis
  proof (cases rule: merge_duplicates_cases[of "mark_duplicates f dups" name cur dups])
    case same
    show ?thesis
    proof
      fix s assume "s \<in> set (output_ids g)"
      then obtain l r where lr: "(l, r) \<in> set (mark_duplicates f dups)" "\<not> is_duplicate r" "station_id r = s"
        unfolding run(5) same by (auto simp: in_output_ids)
      from live_mark_duplicates[OF lr(1,2)] lr(2,3) show "s \<in> set (output_ids f)"
        by (auto simp: in_output_ids)
    qed
  next
    case (replaced first)
    from assms(2) run(4) replaced(1) obtain r0 where
      r0: "(lbl first, r0) \<in> set f" "\<not> is_duplicate r0" "row first = r0\<lparr>is_duplicate := True\<rparr>"
      by (rule duplicate_rows)
    show ?thesis
    proof
      fix s assume "s \<in> set (output_ids g)"
      then obtain l r where lr: "(l, r) \<in> set g" "\<not> is_duplicate r" "station_id r = s"
        by (auto simp: in_output_ids)
      from lr(1) consider
        "r = (row first)\<lparr>is_duplicate := False, merged_attributes := True\<rparr>"
        | "(l, r) \<in> set (mark_duplicates f dups)"
        unfolding run(5) replaced(3) by (auto dest: in_set_loc_assign)
      then show "s \<in> set (output_ids f)"
      proof cases
        case 1
        with r0 lr(3) show ?thesis by (auto simp: in_output_ids)
      next
        case 2
        from live_mark_duplicates[OF 2 lr(2)] lr(2,3) show ?thesis by (auto simp: in_output_ids)
      qed
    qed
  qed
qed

lemma merge_loop_ids_shrink:
  assumes "merge_loop knn ratio thr maxd sw idxs f = Inr f'" "distinct (map fst f)"
  shows "set (output_ids f') \<subseteq> set (output_ids f)"
proof -
  have "map fst f' = map fst f \<and> set (output_ids f') \<subseteq> set (output_ids f)"
  proof (rule merge_loop_induct[OF assms(1),
        where Q="\<lambda>g. map fst g = map fst f \<and> set (output_ids g) \<subseteq> set (output_ids f)"])
    show "map fst f = map fst f \<and> set (output_ids f) \<subseteq> set (output_ids f)" by simp
  next
    fix idx h g
    assume h: "map fst h = map fst f \<and> set (output_ids h) \<subseteq> set (output_ids f)"
      and s: "merge_step knn ratio thr maxd sw idx h = Inr g"
    from h assms(2) have "distinct (map fst h)" by simp
    from merge_step_ids_shrink[OF s this] merge_step_labels[OF s] h
    show "map fst g = map fst f \<and> set (output_ids g) \<subseteq> set (output_ids f)" by auto
  qed
  then show ?thesis by simp
qed

lemma unique_idD:
  assumes "distinct (output_ids f)"
    and "(l1, r1) \<in> set f" "\<not> is_duplicate r1" "(l2, r2) \<in> set f" "\<not> is_duplicate r2"
    and "station_id r1 = station_id r2"
  shows "l1 = l2 \<and> r1 = r2"
proof -
  from assms(1) have "inj_on (\<lambda>x. station_id (snd x)) (set (merged_stations f))"
    by (simp add: output_ids_def distinct_map)
  moreover have "(l1, r1) \<in> set (merged_stations f)" "(l2, r2) \<in> set (merged_stations f)"
    using assms(2-5) by (simp_all add: in_merged_stations)
  ultimately have "(l1, r1) = (l2, r2)"
    using assms(6) by (intro inj_onD[where f="\<lambda>x. station_id (snd x)"]) simp_all
  then show ?thesis by simp
qed

lemma distinct_frame: "distinct (map fst f) \<Longrightarrow> distinct f"
  by (rule distinct_map[THEN iffD1, THEN conjunct1])


lemma replacement_step:
  assumes "drop idx f = (name, cur) # rest" "\<not> is_duplicate cur"
    and "determine_duplicates ratio cur (get_duplicate_candidates knn f (name, cur) maxd) thr maxd sw = Inr dups"
    and "dups \<noteq> []"
  shows "merge_step knn ratio thr maxd sw idx f =
           Inr (merge_duplicates (mark_duplicates f dups) (name, cur) dups)"
proof -
  have "get_duplicate_candidates knn f (name, cur) maxd \<noteq> []"
  proof
    assume "get_duplicate_candidates knn f (name, cur) maxd = []"
    with assms(3) have "dups = []" by (auto elim!: determine_duplicates_Inr)
    with assms(4) show False by simp
  qed
  with assms(1,2,3) show ?thesis by (simp add: merge_step_def Let_def)
qed

lemma merge_step_unique_ids:
  assumes "merge_step knn ratio thr maxd sw idx f = Inr g"
    and "distinct (map fst f)" "distinct (output_ids f)"
  shows "distinct (output_ids g)"
proof -
  have lg: "map fst g = map fst f" using assms(1) by (rule merge_step_labels)
  with assms(2) have "distinct g" by (simp add: distinct_frame)
  then have dm: "distinct (merged_stations g)" by (simp add: merged_stations_def)
  have inj: "inj_on (\<lambda>x. station_id (snd x)) (set (merged_stations g))"
    using assms(1)
  proof (cases rule: merge_step_cases)
    case skip
    with assms(3) show ?thesis by (simp add: output_ids_def distinct_map)
  next
    case (run name cur rest dups)
    let ?m = "mark_duplicates f dups"
    have live_m: "\<And>l r. (l, r) \<in> set ?m \<Longrightarrow> \<not> is_duplicate r \<Longrightarrow>
                   (l, r) \<in> set f \<and> l \<notin> lbl ` set dups"
      by (rule live_mark_duplicates)
    show ?thesis
    proof (cases rule: merge_duplicates_cases[of ?m name cur dups])
      case same
      show ?thesis
      proof (rule inj_onI)
        fix x y assume xy: "x \<in> set (merged_stations g)" "y \<in> set (merged_stations g)"
          "station_id (snd x) = station_id (snd y)"
        obtain l1 r1 l2 r2 where p: "x = (l1, r1)" "y = (l2, r2)" by (cases x, cases y)
        with xy have "(l1, r1) \<in> set ?m" "\<not> is_duplicate r1" "(l2, r2) \<in> set ?m" "\<not> is_duplicate r2"
          unfolding run(5) same by (simp_all add: in_merged_stations)
        with live_m have "(l1, r1) \<in> set f" "\<not> is_duplicate r1" "(l2, r2) \<in> set f" "\<not> is_duplicate r2"
          by blast+
        from unique_idD[OF assms(3) this] xy(3) p show "x = y" by simp
      qed
    next
      case (replaced first)
      let ?new = "(row first)\<lparr>is_duplicate := False, merged_attributes := True\<rparr>"
      from assms(2) run(4) replaced(1) obtain r0 where
        r0: "(lbl first, r0) \<in> set f" "\<not> is_duplicate r0" "row first = r0\<lparr>is_duplicate := True\<rparr>"
        by (rule duplicate_rows)
      have fl: "lbl first \<in> lbl ` set dups" using replaced(1) by (rule imageI)
      have g: "g = loc_assign ?m name ?new" using run(5) replaced(3) by simp
      have cases_g: "\<And>l r. (l, r) \<in> set (merged_stations g) \<Longrightarrow>
          (l = name \<and> r = ?new) \<or> ((l, r) \<in> set f \<and> \<not> is_duplicate r \<and> l \<notin> lbl ` set dups)"
      proof -
        fix l r assume "(l, r) \<in> set (merged_stations g)"
        then have a: "(l, r) \<in> set (loc_assign ?m name ?new)" "\<not> is_duplicate r"
          by (simp_all add: in_merged_stations g)
        from in_set_loc_assign[OF a(1)] a(2) live_m
        show "(l = name \<and> r = ?new) \<or> ((l, r) \<in> set f \<and> \<not> is_duplicate r \<and> l \<notin> lbl ` set dups)"
          by blast
      qed
      have clash: "\<And>l r. (l, r) \<in> set f \<Longrightarrow> \<not> is_duplicate r \<Longrightarrow> l \<notin> lbl ` set dups \<Longrightarrow>
                     station_id r \<noteq> station_id ?new"
      proof
        fix l r assume a: "(l, r) \<in> set f" "\<not> is_duplicate r" "l \<notin> lbl ` set dups"
          "station_id r = station_id ?new"
        then have "station_id r = station_id r0" using r0(3) by simp
        from unique_idD[OF assms(3) a(1,2) r0(1,2) this] a(3) fl show False by simp
      qed
      show ?thesis
      proof (rule inj_onI)
        fix x y assume xy: "x \<in> set (merged_stations g)" "y \<in> set (merged_stations g)"
          "station_id (snd x) = station_id (snd y)"
        obtain l1 r1 l2 r2 where p: "x = (l1, r1)" "y = (l2, r2)" by (cases x, cases y)
        from cases_g[of l1 r1] cases_g[of l2 r2] xy(1,2) p
        consider "x = (name, ?new)" "y = (name, ?new)"
          | "x = (name, ?new)" "(l2, r2) \<in> set f" "\<not> is_duplicate r2" "l2 \<notin> lbl ` set dups"
          | "y = (name, ?new)" "(l1, r1) \<in> set f" "\<not> is_duplicate r1" "l1 \<notin> lbl ` set dups"
          | "(l1, r1) \<in> set f" "\<not> is_duplicate r1" "(l2, r2) \<in> set f" "\<not> is_duplicate r2"
          by blast
        then show "x = y"
        proof cases
          case 1
          then show ?thesis by simp
        next
          case 2
          from clash[OF 2(2,3,4)] 2(1) xy(3) p show ?thesis by simp
        next
          case 3
          from clash[OF 3(2,3,4)] 3(1) xy(3) p show ?thesis by simp
        next
          case 4
          from unique_idD[OF assms(3) 4] xy(3) p show ?thesis by simp
        qed
      qed
    qed
  qed
  from dm inj show ?thesis by (simp add: output_ids_def distinct_map)
qed




text \<open>one candidate at distance 0 whose score is above the threshold\<close>
lemma determine_single:
  assumes "getitem (weights_or_default sw) ''operator'' = Inr wo"
    and "getitem (weights_or_default sw) ''address'' = Inr wa"
    and "getitem (weights_or_default sw) ''distance'' = Inr wd"
    and "maxd \<noteq> 0"
    and "thr < matching_score (score_candidate ratio cur thr maxd wo wa wd c)"
  shows "determine_duplicates ratio cur [c] thr maxd sw =
           Inr [score_candidate ratio cur thr maxd wo wa wd c]"
  using assms by (simp add: determine_duplicates_def score_fields)

lemma scenario_step0:
  assumes "geometry y = geometry x" "\<not> is_duplicate x" "\<not> is_duplicate y"
    and "1 \<in> set (knn 0)" "0 \<notin> set (knn 0)" "0 < maxd"
    and "getitem (weights_or_default sw) ''operator'' = Inr wo"
    and "getitem (weights_or_default sw) ''address'' = Inr wa"
    and "getitem (weights_or_default sw) ''distance'' = Inr wd"
    and "thr < matching_score (score_candidate ratio x thr maxd wo wa wd
                 \<lparr>lbl = 1, distance_meter = 0, row = y\<rparr>)"
  shows "merge_step knn ratio thr maxd sw 0 [(0, x), (1, y)] =
           Inr (merge_duplicates [(0, x), (1, y\<lparr>is_duplicate := True\<rparr>)] (0, x)
                  [score_candidate ratio x thr maxd wo wa wd \<lparr>lbl = 1, distance_meter = 0, row = y\<rparr>])"
proof -
  let ?c = "\<lparr>lbl = 1, distance_meter = 0, row = y\<rparr>"
  let ?f = "[(0, x), (1::nat, y)]"
  have d: "distinct (map fst ?f)" by simp
  have cands: "get_duplicate_candidates knn ?f (0, x) maxd = [?c]"
    unfolding get_duplicate_candidates_distinct[OF d]
    using assms(1-6) by (simp add: dist_same)
  have dups: "determine_duplicates ratio x [?c] thr maxd sw =
                Inr [score_candidate ratio x thr maxd wo wa wd ?c]"
    using assms(6-10) by (intro determine_single) simp_all
  have mark: "mark_duplicates ?f [score_candidate ratio x thr maxd wo wa wd ?c]
               = [(0, x), (1, y\<lparr>is_duplicate := True\<rparr>)]"
    by (simp add: mark_duplicates_def score_fields)
  have "drop 0 ?f = (0, x) # [(1, y)]" by simp
  from merge_step_run[OF this assms(2) cands _ dups] mark
  show ?thesis by simp
qed

lemma scenario_step1:
  "is_duplicate y \<Longrightarrow> merge_step knn ratio thr maxd sw 1 [(l, x), (l', y)] = Inr [(l, x), (l', y)]"
  by (rule merge_step_skip[where name=l' and cur=y and rest="[]"]) simp_all


lemma scenario_ocm_first:
  assumes "data_source b = ''BNA''" "data_source oc = ''OCM''"
    and "geometry b = geometry oc" "\<not> is_duplicate oc" "\<not> is_duplicate b"
    and "1 \<in> set (knn 0)" "0 \<notin> set (knn 0)" "0 < maxd"
    and "getitem (weights_or_default sw) ''operator'' = Inr wo"
    and "getitem (weights_or_default sw) ''address'' = Inr wa"
    and "getitem (weights_or_default sw) ''distance'' = Inr wd"
    and "thr < matching_score (score_candidate ratio oc thr maxd wo wa wd
                 \<lparr>lbl = 1, distance_meter = 0, row = b\<rparr>)"
  shows "merge_loop knn ratio thr maxd sw [0, 1] [(0, oc), (1, b)] =
           Inr [(0, b\<lparr>is_duplicate := False, merged_attributes := True\<rparr>),
                (1, b\<lparr>is_duplicate := True\<rparr>)]"
proof -
  let ?d = "score_candidate ratio oc thr maxd wo wa wd \<lparr>lbl = 1, distance_meter = 0, row = b\<rparr>"
  have row: "row ?d = b\<lparr>is_duplicate := True\<rparr>"
    using assms(12) by (simp add: score_fields)
  have "merge_duplicates [(0, oc), (1, b\<lparr>is_duplicate := True\<rparr>)] (0, oc) [?d]
          = [(0, b\<lparr>is_duplicate := False, merged_attributes := True\<rparr>), (1, b\<lparr>is_duplicate := True\<rparr>)]"
    using assms(1,2) row
    by (simp add: merge_duplicates_def ordered_data_source_pairs_eq loc_assign_def)
  with scenario_step0[where x=oc and y=b and knn=knn, OF assms(3-12)]
  have "merge_step knn ratio thr maxd sw 0 [(0, oc), (1, b)] =
          Inr [(0, b\<lparr>is_duplicate := False, merged_attributes := True\<rparr>), (1, b\<lparr>is_duplicate := True\<rparr>)]"
    by simp
  moreover have "merge_step knn ratio thr maxd sw 1
          [(0, b\<lparr>is_duplicate := False, merged_attributes := True\<rparr>), (1, b\<lparr>is_duplicate := True\<rparr>)] =
          Inr [(0, b\<lparr>is_duplicate := False, merged_attributes := True\<rparr>), (1, b\<lparr>is_duplicate := True\<rparr>)]"
    by (rule scenario_step1) simp
  ultimately show ?thesis by simp
qed

lemma load_coordinates_rows:
  assumes "r \<in> set (load_coordinates wkt_loads ds)"
  shows "\<not> is_duplicate r \<and> \<not> merged_attributes r
       \<and> (\<exists>d \<in> set ds. station_id r = station_id d \<and> operator r = operator d
              \<and> socket_type_list r = socket_type_list d
              \<and> get_wkt wkt_loads (geometry d) = Some (geometry r))"
  using assms
  by (induction ds) (auto simp: to_row_def split: option.splits)

lemma set_drop_duplicates: "set (drop_duplicates seen rs) \<subseteq> set rs"
  by (induction rs arbitrary: seen) auto

lemma drop_duplicates_unseen:
  "r \<in> set (drop_duplicates seen rs) \<Longrightarrow> station_id r \<notin> set seen"
  by (induction rs arbitrary: seen) (fastforce split: if_splits)+

lemma distinct_drop_duplicates: "distinct (map station_id (drop_duplicates seen rs))"
  by (induction rs arbitrary: seen) (auto dest: drop_duplicates_unseen)

lemma prepare_geodataframe_sound:
  assumes "prepare_geodataframe wkt_loads sample ds = Inr f"
    and "\<forall>z. mset (sample z) = mset z"
  shows "distinct (map fst f) \<and> distinct (output_ids f)
       \<and> (\<forall>(l, r) \<in> set f. \<not> is_duplicate r \<and> \<not> merged_attributes r
              \<and> operator r \<noteq> None \<and> socket_type_list r \<noteq> None)"
proof -
  define kept where "kept = filter (\<lambda>r. operator r \<noteq> None \<and> socket_type_list r \<noteq> None)
                 (drop_duplicates [] (load_coordinates wkt_loads ds))"
  define z where "z = zip [0..<length kept] kept"
  from assms(1) have f: "f = sample z"
    by (simp add: prepare_geodataframe_def Let_def z_def kept_def split: if_splits)
  from assms(2) have ms: "mset f = mset z" by (simp add: f)
  then have setf: "set f = set z" by (rule mset_eq_setD)
  have fz: "map fst z = [0..<length kept]" and sz: "map snd z = kept"
    by (simp_all add: z_def)
  have "mset (map fst f) = mset (map fst z)"
    by (simp only: mset_map ms)
  from mset_eq_imp_distinct_iff[OF this]
  have dl: "distinct (map fst f)" by (simp add: fz)
  have rows: "\<forall>(l, r) \<in> set f. \<not> is_duplicate r \<and> \<not> merged_attributes r
              \<and> operator r \<noteq> None \<and> socket_type_list r \<noteq> None"
  proof clarify
    fix l r assume "(l, r) \<in> set f"
    with setf have "r \<in> set kept" by (auto simp: z_def dest: set_zip_rightD)
    then have "r \<in> set (load_coordinates wkt_loads ds)"
      "operator r \<noteq> None \<and> socket_type_list r \<noteq> None"
      using set_drop_duplicates by (auto simp: kept_def)
    with load_coordinates_rows[of r wkt_loads ds]
    show "\<not> is_duplicate r \<and> \<not> merged_attributes r
              \<and> operator r \<noteq> None \<and> socket_type_list r \<noteq> None" by simp
  qed
  then have "filter (\<lambda>(l, r). \<not> is_duplicate r) f = f"
    by (intro filter_True) auto
  then have mf: "merged_stations f = f"
    by (simp add: merged_stations_def)
  have "map (\<lambda>x. station_id (snd x)) z = map station_id (map snd z)"
    by (simp only: map_map comp_def)
  then have ids: "map (\<lambda>x. station_id (snd x)) z = map station_id kept"
    by (simp only: sz)
  have "mset (output_ids f) = mset (map (\<lambda>x. station_id (snd x)) z)"
    by (simp only: output_ids_def mf mset_map ms)
  from mset_eq_imp_distinct_iff[OF this]
  have "distinct (output_ids f) \<longleftrightarrow> distinct (map station_id kept)"
    by (simp only: ids)
  moreover have "distinct (map station_id kept)"
    unfolding kept_def by (intro distinct_map_filter distinct_drop_duplicates)
  ultimately have "distinct (output_ids f)" by simp
  with dl rows show ?thesis by simp
qed

lemma merge_loop_rows:
  assumes "merge_loop knn ratio thr maxd sw idxs f = Inr f'"
    and "distinct (map fst f)"
    and "\<forall>(l, r) \<in> set f. operator r \<noteq> None \<and> socket_type_list r \<noteq> None"
  shows "\<forall>(l, r) \<in> set f'. operator r \<noteq> None \<and> socket_type_list r \<noteq> None"
proof -
  have "map fst f' = map fst f \<and> (\<forall>(l, r) \<in> set f'. operator r \<noteq> None \<and> socket_type_list r \<noteq> None)"
  proof (rule merge_loop_induct[OF assms(1),
        where Q="\<lambda>g. map fst g = map fst f
                  \<and> (\<forall>(l, r) \<in> set g. operator r \<noteq> None \<and> socket_type_list r \<noteq> None)"])
    show "map fst f = map fst f \<and> (\<forall>(l, r) \<in> set f. operator r \<noteq> None \<and> socket_type_list r \<noteq> None)"
      using assms(3) by simp
  next
    fix idx h g
    assume h: "map fst h = map fst f
               \<and> (\<forall>(l, r) \<in> set h. operator r \<noteq> None \<and> socket_type_list r \<noteq> None)"
      and s: "merge_step knn ratio thr maxd sw idx h = Inr g"
    from h assms(2) have d: "distinct (map fst h)" by simp
    have "\<forall>(l, r) \<in> set g. operator r \<noteq> None \<and> socket_type_list r \<noteq> None"
      by (rule merge_step_rows[OF s d]) (use h in simp_all)
    with merge_step_labels[OF s] h
    show "map fst g = map fst f
          \<and> (\<forall>(l, r) \<in> set g. operator r \<noteq> None \<and> socket_type_list r \<noteq> None)" by simp
  qed
  then show ?thesis by simp
qed

lemma merge_Inr:
  assumes "merge wkt_loads sample knn_from_dataframe ratio listdir ds sl thr maxd sw = Inr m"
  obtains records f knn3 where
    "merge_input listdir ds sl = Inr records"
    "prepare_geodataframe wkt_loads sample records = Inr f"
    "knn_from_dataframe f = Inr knn3"
    "merge_loop knn3 ratio thr maxd (Some (weights_or_default sw))
        [0..<length f] f = Inr (stations_gdf_of m)"
    "merged_stations_gdf m = merged_stations (stations_gdf_of m)"
  using assms
  by (auto simp: merge_def Let_def split: sum.splits)

lemma ex_dups_bna': 
  "determine_duplicates test_ratio bna_station
      (get_duplicate_candidates knn_pair bna_first (0, bna_station) default_max_distance)
      default_score_threshold default_max_distance None = Inr [scored_ocm]"
  by (simp only: ex_cands_bna ex_dups_bna scored_ocm_def)

lemma ex_distinct_bna: "distinct (map fst bna_first)"
  by (simp add: bna_first_def)

lemma ex_loop_bna': 
  "merge_loop knn_pair test_ratio default_score_threshold default_max_distance None
         (0 # [1]) bna_first = Inr bna_first_merged"
  unfolding bna_first_merged_def by (rule ex_loop_bna)

lemma ex_ocm_not_bna: "data_source ocm_station \<noteq> ''BNA''"
  by (simp add: ocm_station_def)

lemma ex_find_ocm:
  "find (\<lambda>(c, d). c = data_source ocm_station \<and> (\<exists>x \<in> set [scored_bna]. data_source (row x) = d))
     ordered_data_source_pairs = Some (''OCM'', ''BNA'')"
  by (simp add: ordered_data_source_pairs_eq ocm_station_def scored_bna_def bna_station_def)

lemma ex_cands_ocm:
  "get_duplicate_candidates knn_pair ocm_first (0, ocm_station) default_max_distance =
     [\<lparr>lbl = 1, distance_meter = 0, row = bna_station\<rparr>]"
  by (simp add: get_duplicate_candidates_def ocm_first_def knn_pair_def Let_def default_max_distance_def
      haversine_distance_def bna_station_def ocm_station_def)

lemma ex_dups_ocm:
  "determine_duplicates test_ratio ocm_station [\<lparr>lbl = 1, distance_meter = 0, row = bna_station\<rparr>]
      default_score_threshold default_max_distance None = Inr [scored_bna]"
  by (simp add: determine_duplicates_def weights_or_default_def default_score_weights_def
      default_max_distance_def default_score_threshold_def scored_bna_def
      getitem_def score_candidate_def Let_def operator_match_of_def address_match_of_def
      address_of_def fmt_def test_ratio_def bna_station_def ocm_station_def)

lemma ex_dups_ocm':
  "determine_duplicates test_ratio ocm_station
      (get_duplicate_candidates knn_pair ocm_first (0, ocm_station) default_max_distance)
      default_score_threshold default_max_distance None = Inr [scored_bna]"
  by (simp only: ex_cands_ocm ex_dups_ocm)

lemma ex_drop0_ocm: "drop 0 ocm_first = (0, ocm_station) # [(1, bna_station)]"
  by (simp add: ocm_first_def)

lemma ex_ocm_live: "\<not> is_duplicate ocm_station"
  by (simp add: ocm_station_def)

lemma ex_step0_ocm:
  "merge_step knn_pair test_ratio default_score_threshold default_max_distance None 0 ocm_first
     = Inr ocm_first_merged"
proof -
  have "merge_duplicates (mark_duplicates ocm_first [scored_bna]) (0, ocm_station) [scored_bna]
          = ocm_first_merged"
    by (simp add: merge_duplicates_def mark_duplicates_def ocm_first_def ocm_first_merged_def
        ordered_data_source_pairs_eq loc_assign_def scored_bna_def)
       (simp add: ocm_station_def bna_station_def)
  then show ?thesis
    using merge_step_run[OF ex_drop0_ocm ex_ocm_live ex_cands_ocm _ ex_dups_ocm] by simp
qed

lemma ex_loop1_ocm:
  "merge_loop knn_pair test_ratio default_score_threshold default_max_distance None [1]
     ocm_first_merged = Inr ocm_first_merged"
proof -
  have "merge_step knn_pair test_ratio default_score_threshold default_max_distance None 1
          ocm_first_merged = Inr ocm_first_merged"
    unfolding ocm_first_merged_def
    by (rule merge_step_skip[where name=1 and cur="bna_station\<lparr>is_duplicate := True\<rparr>" and rest="[]"])
       simp_all
  then show ?thesis by (simp only: merge_loop.simps sum.case)
qed

lemma ex_distinct_ocm: "distinct (map fst ocm_first)"
  by (simp add: ocm_first_def)

lemma ex_ids_ocm: "distinct (output_ids ocm_first)"
  by (simp add: output_ids_def merged_stations_def ocm_first_def ocm_station_def bna_station_def)

lemma ex_prepare_ocm_first:
  "prepare_geodataframe wkt_point keep_order [ocm_dict, bna_dict] = Inr ocm_first"
  by (simp add: prepare_geodataframe_def get_wkt_def wkt_point_def keep_order_def to_row_def
      ocm_dict_def bna_dict_def ocm_first_def ocm_station_def bna_station_def)

lemma ex_prepare_no_operator:
  "prepare_geodataframe wkt_point keep_order [osm_dict_no_operator, ocm_dict, bna_dict]
     = Inr ocm_first"
  by (simp add: prepare_geodataframe_def get_wkt_def wkt_point_def keep_order_def to_row_def
      ocm_dict_def bna_dict_def ocm_first_def ocm_station_def bna_station_def
      osm_dict_no_operator_def)

lemma ex_weights:
  "getitem (weights_or_default (Some (weights_or_default None))) ''operator'' = Inr 0.2"
  "getitem (weights_or_default (Some (weights_or_default None))) ''address'' = Inr 0.1"
  "getitem (weights_or_default (Some (weights_or_default None))) ''distance'' = Inr 0.7"
  "getitem (weights_or_default None) ''operator'' = Inr 0.2"
  "getitem (weights_or_default None) ''address'' = Inr 0.1"
  "getitem (weights_or_default None) ''distance'' = Inr 0.7"
  by (simp_all add: getitem_def weights_or_default_def default_score_weights_def)


lemma ex_score_ocm_cur:
  "default_score_threshold < matching_score (score_candidate test_ratio ocm_station
      default_score_threshold default_max_distance 0.2 0.1 0.7
      \<lparr>lbl = 1, distance_meter = 0, row = bna_station\<rparr>)"
  by (simp add: matching_score_formula operator_match_of_def address_match_of_def address_of_def
      fmt_def test_ratio_def default_score_threshold_def bna_station_def ocm_station_def)

lemma ex_knn: "1 \<in> set (knn_pair 0)" "0 \<notin> set (knn_pair 0)"
  by (simp_all add: knn_pair_def)

lemma ex_maxd: "0 < default_max_distance"
  by (simp add: default_max_distance_def)

lemma ex_bna_source: "data_source bna_station = ''BNA''"
  by (simp add: bna_station_def)

lemma ex_ocm_source: "data_source ocm_station = ''OCM''"
  by (simp add: ocm_station_def)

lemma ex_same_place: "geometry bna_station = geometry ocm_station"
  by (simp add: bna_station_def ocm_station_def)

lemma ex_loop_ocm_weights:
  "merge_loop knn_pair test_ratio default_score_threshold default_max_distance
      (Some (weights_or_default None)) [0, 1] ocm_first = Inr ocm_first_merged"
  unfolding ocm_first_def ocm_first_merged_def
  by (rule scenario_ocm_first[where knn=knn_pair, OF ex_bna_source ex_ocm_source ex_same_place ex_ocm_live ex_bna_live
        ex_knn ex_maxd ex_weights(1,2,3) ex_score_ocm_cur])

lemma ex_merged_ocm:
  "merged_stations ocm_first_merged =
     [(0, bna_station\<lparr>is_duplicate := False, merged_attributes := True\<rparr>)]"
  by (simp add: merged_stations_def ocm_first_merged_def)

lemma ex_merge_records:
  assumes "merge_input listdir ds sl = Inr records"
    and "prepare_geodataframe wkt_point keep_order records = Inr ocm_first"
  shows "merge wkt_point keep_order knn_of_pair test_ratio listdir ds sl
           default_score_threshold default_max_distance None = Inr ocm_first_result"
proof -
  have len: "[0..<length ocm_first] = [0, 1]"
    by (simp add: ocm_first_def)
  show ?thesis
    unfolding merge_def Let_def assms(1)
    by (simp only: sum.case assms(2) knn_of_pair_def len ex_loop_ocm_weights
        ex_merged_ocm ocm_first_result_def)
qed




lemma ex_merge_no_operator:
  "merge wkt_point keep_order knn_of_pair test_ratio no_files []
     (Some [osm_dict_no_operator, ocm_dict, bna_dict])
     default_score_threshold default_max_distance None
   = Inr ocm_first_result"
  by (rule ex_merge_records[OF _ ex_prepare_no_operator]) (simp add: merge_input_def)

lemma ex_keep_order: "\<forall>z. mset (keep_order z) = mset z"
  by (simp add: keep_order_def)

lemma ex_load_broken:
  "load_data False broken_second_file []
     = (Some (IOError ''Expecting value: line 1 column 1 (char 0)''), [ocm_dict, bna_dict])"
  by (simp add: load_data_def broken_second_file_def suffix_to_prefix)

lemma ex_load_no_files:
  "load_data False no_files [] = (Some (RuntimeError ''Could not read any json files!''), [])"
  by (simp add: load_data_def no_files_def)

lemma ex_merge_broken:
  "merge wkt_point keep_order knn_of_pair test_ratio broken_second_file [] None
     default_score_threshold default_max_distance None = Inr ocm_first_result"
  by (rule ex_merge_records[OF _ ex_prepare_ocm_first])
     (simp add: merge_input_def ex_load_broken)

lemma merge_loop_unique_ids:
  assumes "merge_loop knn ratio thr maxd sw idxs f = Inr f'"
    and "distinct (map fst f)" "distinct (output_ids f)"
  shows "distinct (map fst f') \<and> distinct (output_ids f')"
proof (rule merge_loop_induct[OF assms(1),
      where Q="\<lambda>g. distinct (map fst g) \<and> distinct (output_ids g)"])
  show "distinct (map fst f) \<and> distinct (output_ids f)" using assms(2,3) by simp
next
  fix idx h g
  assume h: "distinct (map fst h) \<and> distinct (output_ids h)"
    and s: "merge_step knn ratio thr maxd sw idx h = Inr g"
  from merge_step_unique_ids[OF s] merge_step_labels[OF s] h
  show "distinct (map fst g) \<and> distinct (output_ids g)" by simp
qed

lemma ex_snd_broken: "snd (load_data False broken_second_file []) \<noteq> []"
  by (simp add: ex_load_broken)

lemma ex_snd_no_files: "snd (load_data False no_files []) = []"
  by (simp add: ex_load_no_files)

lemma ex_load_files_empty:
  "load_files False ([] :: (string \<times> (error + unit station_dict list)) list) [] = (None, [])"
  by simp


lemma ex_len_bna: "0 < length bna_first"
  by (simp add: bna_first_def)

lemma ex_cands_near:
  "get_duplicate_candidates knn_pair bna_first (0, bna_station) default_max_distance = [near_candidate]"
  by (simp only: ex_cands_bna near_candidate_def)

lemma ex_label0: "fst (bna_first ! 0) = 0"
  by (simp add: bna_first_def)

section \<open>The claims\<close>

subsection \<open>Claim C1\<close>

text \<open>
  Claim C1. Once a row of the working set is marked \<open>is_duplicate = True\<close>, it is
  excluded from the final output and from every candidate set of all later iterations.
  The marking happens in an iteration at position \<open>idx\<close> of a working set \<open>f\<close> with
  unique index labels, for a current station that is not a duplicate; \<open>dups\<close> are the
  flagged duplicates, and the row at position \<open>i\<close> is one of them. The neighbour table
  never lists a station among its own neighbours. Then, after this iteration and any
  further iterations \<open>idxs\<close>, the row at position \<open>i\<close> keeps its label, is still marked,
  is not in \<open>merged_stations\<close>, and is not returned by the candidate selector for any
  query station and any maximum distance.
\<close>

theorem marked_duplicate_stays_excluded:
  assumes "\<forall>l. l \<notin> set (knn l)" "distinct (map fst f)"
    and "drop idx f = (name, cur) # rest" "\<not> is_duplicate cur"
    and "determine_duplicates ratio cur (get_duplicate_candidates knn f (name, cur) maxd) thr maxd sw = Inr dups"
    and "i < length f" "fst (f ! i) \<in> lbl ` set dups"
    and "merge_loop knn ratio thr maxd sw (idx # idxs) f = Inr f'"
  shows "fst (f' ! i) = fst (f ! i) \<and> is_duplicate (snd (f' ! i))
       \<and> fst (f ! i) \<notin> fst ` set (merged_stations f')
       \<and> (\<forall>q m. fst (f ! i) \<notin> lbl ` set (get_duplicate_candidates knn f' q m))"
proof -
  from assms(8) obtain g where
    s: "merge_step knn ratio thr maxd sw idx f = Inr g"
    and l: "merge_loop knn ratio thr maxd sw idxs g = Inr f'"
    by (auto split: sum.splits)
  have lg: "map fst g = map fst f" using s by (rule merge_step_labels)
  have lf: "map fst f' = map fst f" using l lg by (simp add: merge_loop_labels)
  have len: "length g = length f" "length f' = length f"
    using lg lf by (metis length_map)+
  have "is_duplicate (snd (g ! i))"
    using assms(1-7) s by (rule merge_step_marks)
  then have dup: "is_duplicate (snd (f' ! i))"
    using l lg assms(2,6) len by (intro merge_loop_dup_mono[OF l]) simp_all
  have lab: "fst (f' ! i) = fst (f ! i)"
    using lf assms(6) len by (metis nth_map)
  have d': "distinct (map fst f')" using lf assms(2) by simp
  have i': "i < length f'" using len assms(6) by simp
  from dup_not_in_merged[OF d' i' dup] dup_not_candidate[OF d' i' dup] dup lab
  show ?thesis by simp
qed

text \<open>
  The premises of C1 hold for the BNA station visited first and the OCM station at the
  same place, which the first iteration marks.
\<close>

theorem marked_duplicate_stays_excluded_witness:
  "((\<forall>l. l \<notin> set (knn_pair l)) \<and> distinct (map fst bna_first)
    \<and> drop 0 bna_first = (0, bna_station) # [(1, ocm_station)]
    \<and> \<not> is_duplicate bna_station
    \<and> determine_duplicates test_ratio bna_station
         (get_duplicate_candidates knn_pair bna_first (0, bna_station) default_max_distance)
         default_score_threshold default_max_distance None = Inr [scored_ocm]
    \<and> 1 < length bna_first
    \<and> fst (bna_first ! 1) \<in> lbl ` set [scored_ocm]
    \<and> merge_loop knn_pair test_ratio default_score_threshold default_max_distance None
         (0 # [1]) bna_first = Inr bna_first_merged)
   \<and> (fst (bna_first_merged ! 1) = fst (bna_first ! 1)
    \<and> is_duplicate (snd (bna_first_merged ! 1))
    \<and> fst (bna_first ! 1) \<notin> fst ` set (merged_stations bna_first_merged)
    \<and> (\<forall>q m. fst (bna_first ! 1) \<notin> lbl ` set (get_duplicate_candidates knn_pair
               bna_first_merged q m)))"
  (is "?H \<and> ?C")
proof (rule conjI)
  have h6: "1 < length bna_first" by (simp add: bna_first_def)
  have h7: "fst (bna_first ! 1) \<in> lbl ` set [scored_ocm]"
    by (simp add: bna_first_def scored_ocm_def)
  show ?H
    by (intro conjI knn_pair_irrefl ex_distinct_bna ex_drop0_bna ex_bna_live ex_dups_bna' h6 h7
          ex_loop_bna')
  show ?C
    by (rule marked_duplicate_stays_excluded[OF knn_pair_irrefl ex_distinct_bna ex_drop0_bna ex_bna_live ex_dups_bna' h6 h7
          ex_loop_bna'])
qed

subsection \<open>Claim C2\<close>

text \<open>
  Claim C2. For a current station whose source is not BNA, \<^verbatim>\<open>_merge_duplicates\<close> goes
  through the pairs \<open>{OCM, OSM} \<times> {BNA, OCM, OSM}\<close> in this order; at the first pair
  \<open>(c, d)\<close> whose first component is the source of the current station and for which a
  duplicate of source \<open>d\<close> exists, the row with the label of the current station becomes
  the row of the first such duplicate with \<open>is_duplicate = False\<close> and
  \<open>merged_attributes = True\<close>. That is the only assignment: every row with another label
  is unchanged.
\<close>

theorem merge_duplicates_first_pairing:
  assumes "data_source cur \<noteq> ''BNA''"
    and "find (\<lambda>(c, d). c = data_source cur \<and> (\<exists>x \<in> set dups. data_source (row x) = d))
           ordered_data_source_pairs = Some (c, d)"
  shows "ordered_data_source_pairs =
           [(''OCM'', ''BNA''), (''OCM'', ''OCM''), (''OCM'', ''OSM''),
            (''OSM'', ''BNA''), (''OSM'', ''OCM''), (''OSM'', ''OSM'')]
       \<and> (\<exists>first rest.
            filter (\<lambda>x. data_source (row x) = d) dups = first # rest
          \<and> merge_duplicates gdf (name, cur) dups =
              loc_assign gdf name ((row first)\<lparr>is_duplicate := False, merged_attributes := True\<rparr>)
          \<and> map fst (merge_duplicates gdf (name, cur) dups) = map fst gdf
          \<and> (\<forall>i < length gdf. merge_duplicates gdf (name, cur) dups ! i =
                (if fst (gdf ! i) = name
                 then (name, (row first)\<lparr>is_duplicate := False, merged_attributes := True\<rparr>)
                 else gdf ! i)))"
proof -
  from assms obtain first rest where
    fr: "filter (\<lambda>x. data_source (row x) = d) dups = first # rest"
    and m: "merge_duplicates gdf (name, cur) dups =
       loc_assign gdf name ((row first)\<lparr>is_duplicate := False, merged_attributes := True\<rparr>)"
    by (rule merge_duplicates_first)
  show ?thesis
    using fr m by (simp add: ordered_data_source_pairs_eq nth_loc_assign)
qed

text \<open>
  The premises of C2 hold for the OCM station as current station and the BNA station as
  its flagged duplicate: the first pair that applies is \<open>(OCM, BNA)\<close>.
\<close>

theorem merge_duplicates_first_pairing_witness:
  "(data_source ocm_station \<noteq> ''BNA''
    \<and> find (\<lambda>(c, d). c = data_source ocm_station \<and> (\<exists>x \<in> set [scored_bna]. data_source (row x) = d))
         ordered_data_source_pairs = Some (''OCM'', ''BNA''))
   \<and> (ordered_data_source_pairs =
           [(''OCM'', ''BNA''), (''OCM'', ''OCM''), (''OCM'', ''OSM''),
            (''OSM'', ''BNA''), (''OSM'', ''OCM''), (''OSM'', ''OSM'')]
       \<and> (\<exists>first rest.
            filter (\<lambda>x. data_source (row x) = ''BNA'') [scored_bna] = first # rest
          \<and> merge_duplicates ocm_first (0, ocm_station) [scored_bna] =
              loc_assign ocm_first 0 ((row first)\<lparr>is_duplicate := False, merged_attributes := True\<rparr>)
          \<and> map fst (merge_duplicates ocm_first (0, ocm_station) [scored_bna]) = map fst ocm_first
          \<and> (\<forall>i < length ocm_first. merge_duplicates ocm_first (0, ocm_station) [scored_bna] ! i =
                (if fst (ocm_first ! i) = 0
                 then (0, (row first)\<lparr>is_duplicate := False, merged_attributes := True\<rparr>)
                 else ocm_first ! i))))"
  by (rule conjI[OF conjI[OF ex_ocm_not_bna ex_find_ocm] merge_duplicates_first_pairing[OF ex_ocm_not_bna ex_find_ocm]])

subsection \<open>Claim C3\<close>




subsection \<open>Claim C4\<close>

text \<open>
  Claim C4. For the candidates that the candidate selector returns on a working set with
  unique labels, and when the scorer returns: the weights are the entries of the score
  weights, the matching score of every candidate is
  \<open>w_operator * operator_match + w_address * address_match
     + w_distance * (1 - distance_meter / max_distance)\<close>,
  a candidate is flagged as duplicate if and only if its score is strictly greater than
  the threshold, and the result is exactly the list of the flagged candidates, with their
  scores.
\<close>

theorem determine_duplicates_threshold:
  assumes "distinct (map fst gdf)"
    and "determine_duplicates ratio cur (get_duplicate_candidates knn gdf (name, cur) maxd)
           thr maxd sw = Inr dups"
  shows "\<exists>wo wa wd.
           getitem (weights_or_default sw) ''operator'' = Inr wo
         \<and> getitem (weights_or_default sw) ''address'' = Inr wa
         \<and> getitem (weights_or_default sw) ''distance'' = Inr wd
         \<and> (\<forall>c. matching_score (score_candidate ratio cur thr maxd wo wa wd c) =
                  wo * operator_match (score_candidate ratio cur thr maxd wo wa wd c)
                  + wa * address_match (score_candidate ratio cur thr maxd wo wa wd c)
                  + wd * (1 - distance_meter c / maxd))
         \<and> (\<forall>c \<in> set (get_duplicate_candidates knn gdf (name, cur) maxd).
                is_duplicate (row (score_candidate ratio cur thr maxd wo wa wd c))
                \<longleftrightarrow> matching_score (score_candidate ratio cur thr maxd wo wa wd c) > thr)
         \<and> dups = map (score_candidate ratio cur thr maxd wo wa wd)
                    (filter (\<lambda>c. matching_score (score_candidate ratio cur thr maxd wo wa wd c) > thr)
                       (get_duplicate_candidates knn gdf (name, cur) maxd))"
proof -
  let ?cands = "get_duplicate_candidates knn gdf (name, cur) maxd"
  have nd: "\<And>c. c \<in> set ?cands \<Longrightarrow> \<not> is_duplicate (row c)"
    unfolding get_duplicate_candidates_distinct[OF assms(1)] by auto
  from assms(2) obtain wo wa wd where w:
    "getitem (weights_or_default sw) ''operator'' = Inr wo"
    "getitem (weights_or_default sw) ''address'' = Inr wa"
    "getitem (weights_or_default sw) ''distance'' = Inr wd"
    and d: "dups = map (score_candidate ratio cur thr maxd wo wa wd)
              (filter (\<lambda>c. matching_score (score_candidate ratio cur thr maxd wo wa wd c) > thr
                           \<or> is_duplicate (row c)) ?cands)"
    by (rule determine_duplicates_general)
  have f: "filter (\<lambda>c. matching_score (score_candidate ratio cur thr maxd wo wa wd c) > thr
                           \<or> is_duplicate (row c)) ?cands
         = filter (\<lambda>c. matching_score (score_candidate ratio cur thr maxd wo wa wd c) > thr) ?cands"
    by (rule filter_cong) (auto dest: nd)
  have flag: "\<forall>c \<in> set ?cands.
                is_duplicate (row (score_candidate ratio cur thr maxd wo wa wd c))
                \<longleftrightarrow> matching_score (score_candidate ratio cur thr maxd wo wa wd c) > thr"
    by (auto simp: score_fields dest: nd)
  have form: "\<forall>c. matching_score (score_candidate ratio cur thr maxd wo wa wd c) =
                  wo * operator_match (score_candidate ratio cur thr maxd wo wa wd c)
                  + wa * address_match (score_candidate ratio cur thr maxd wo wa wd c)
                  + wd * (1 - distance_meter c / maxd)"
    by (simp add: matching_score_formula score_fields)
  show ?thesis
    using w form flag d unfolding f by blast
qed

text \<open>
  The premises of C4 hold for the BNA station as current station: the scorer returns the
  OCM station, with score 1.
\<close>

theorem determine_duplicates_threshold_witness:
  "(distinct (map fst bna_first)
   \<and> determine_duplicates test_ratio bna_station
        (get_duplicate_candidates knn_pair bna_first (0, bna_station) default_max_distance)
        default_score_threshold default_max_distance None = Inr [scored_ocm])
   \<and> (\<exists>wo wa wd.
           getitem (weights_or_default None) ''operator'' = Inr wo
         \<and> getitem (weights_or_default None) ''address'' = Inr wa
         \<and> getitem (weights_or_default None) ''distance'' = Inr wd
         \<and> (\<forall>c. matching_score (score_candidate test_ratio bna_station default_score_threshold
                                   default_max_distance wo wa wd c) =
                  wo * operator_match (score_candidate test_ratio bna_station default_score_threshold
                                   default_max_distance wo wa wd c)
                  + wa * address_match (score_candidate test_ratio bna_station default_score_threshold
                                   default_max_distance wo wa wd c)
                  + wd * (1 - distance_meter c / default_max_distance))
         \<and> (\<forall>c \<in> set (get_duplicate_candidates knn_pair bna_first (0, bna_station) default_max_distance).
                is_duplicate (row (score_candidate test_ratio bna_station default_score_threshold
                                   default_max_distance wo wa wd c))
                \<longleftrightarrow> matching_score (score_candidate test_ratio bna_station default_score_threshold
                                   default_max_distance wo wa wd c) > default_score_threshold)
         \<and> [scored_ocm] = map (score_candidate test_ratio bna_station default_score_threshold
                                 default_max_distance wo wa wd)
                    (filter (\<lambda>c. matching_score (score_candidate test_ratio bna_station
                                    default_score_threshold default_max_distance wo wa wd c)
                                  > default_score_threshold)
                       (get_duplicate_candidates knn_pair bna_first (0, bna_station) default_max_distance)))"
  by (rule conjI[OF conjI[OF ex_distinct_bna ex_dups_bna'] determine_duplicates_threshold[OF ex_distinct_bna ex_dups_bna']])

subsection \<open>Claim C5\<close>

text \<open>
  Claim C5. On a working set with unique labels, every station returned by the candidate
  selector is a row of the working set that is not marked \<open>is_duplicate\<close>, is a neighbour of
  the query station, and carries its haversine distance to the query station, which is
  strictly less than \<open>max_distance\<close>. The result is a list in every case; it is empty
  exactly when no unmarked neighbour is that near.
\<close>

theorem candidates_live_and_near:
  assumes "distinct (map fst gdf)"
  shows "(\<forall>c \<in> set (get_duplicate_candidates knn gdf (name, cur) maxd).
            (lbl c, row c) \<in> set gdf \<and> lbl c \<in> set (knn name) \<and> \<not> is_duplicate (row c)
            \<and> distance_meter c = dist_to cur (row c) \<and> distance_meter c < maxd)
       \<and> (get_duplicate_candidates knn gdf (name, cur) maxd = [] \<longleftrightarrow>
            (\<forall>(l, r) \<in> set gdf. l \<in> set (knn name) \<and> \<not> is_duplicate r \<longrightarrow> \<not> dist_to cur r < maxd))"
  unfolding get_duplicate_candidates_distinct[OF assms]
  by (auto simp: filter_empty_conv)

text \<open>
  The working set of the two example stations has unique labels.
\<close>

theorem candidates_live_and_near_witness:
  "distinct (map fst bna_first)
   \<and> get_duplicate_candidates knn_pair bna_first (0, bna_station) default_max_distance
       = [near_candidate]
   \<and> (lbl near_candidate, row near_candidate) \<in> set bna_first
   \<and> lbl near_candidate \<in> set (knn_pair 0)
   \<and> \<not> is_duplicate (row near_candidate)
   \<and> distance_meter near_candidate = dist_to bna_station (row near_candidate)
   \<and> distance_meter near_candidate < default_max_distance"
proof -
  have "\<forall>c \<in> set [near_candidate].
            (lbl c, row c) \<in> set bna_first \<and> lbl c \<in> set (knn_pair 0) \<and> \<not> is_duplicate (row c)
            \<and> distance_meter c = dist_to bna_station (row c) \<and> distance_meter c < default_max_distance"
    using candidates_live_and_near[OF ex_distinct_bna, of knn_pair 0 bna_station default_max_distance, THEN conjunct1]
    unfolding ex_cands_near .
  then show ?thesis
    using ex_distinct_bna ex_cands_near by simp
qed

subsection \<open>Claim C6\<close>

text \<open>
  Claim C6 does not hold: \<^verbatim>\<open>merge\<close> on a station without operator, the OCM station
  and the BNA station gives the working set and the output of the OCM and the BNA station
  alone; the identifier of the station without operator is in neither.
\<close>

theorem incomplete_record_counterexample:
  "operator osm_dict_no_operator = None
   \<and> merge wkt_point keep_order knn_of_pair test_ratio no_files []
       (Some [osm_dict_no_operator, ocm_dict, bna_dict])
       default_score_threshold default_max_distance None
     = Inr ocm_first_result
   \<and> station_id osm_dict_no_operator
       \<notin> set (map (station_id \<circ> snd) (stations_gdf_of ocm_first_result))
   \<and> station_id osm_dict_no_operator
       \<notin> set (map (station_id \<circ> snd) (merged_stations_gdf ocm_first_result))"
  by (simp add: ex_merge_no_operator)
     (simp add: osm_dict_no_operator_def ocm_first_result_def ocm_first_merged_def bna_station_def)

text \<open>
  Claim C6, amended. Preparation removes the records without operator or without socket
  type list from the working set: whenever \<^verbatim>\<open>merge\<close> returns, for a shuffle that permutes
  the rows, every row of the working set and of the final output has an operator and a
  socket type list.
\<close>

theorem incomplete_records_dropped:
  assumes "\<forall>z. mset (sample z) = mset z"
    and "merge wkt_loads sample knn_from_dataframe ratio listdir ds sl thr maxd sw = Inr m"
  shows "\<forall>(l, r) \<in> set (stations_gdf_of m) \<union> set (merged_stations_gdf m).
           operator r \<noteq> None \<and> socket_type_list r \<noteq> None"
proof -
  from assms(2) obtain records f knn3 where
    p: "prepare_geodataframe wkt_loads sample records = Inr f"
    and l: "merge_loop knn3 ratio thr maxd (Some (weights_or_default sw))
        [0..<length f] f = Inr (stations_gdf_of m)"
    and o: "merged_stations_gdf m = merged_stations (stations_gdf_of m)"
    by (rule merge_Inr)
  from prepare_geodataframe_sound[OF p assms(1)]
  have "distinct (map fst f)"
    "\<forall>(l, r) \<in> set f. operator r \<noteq> None \<and> socket_type_list r \<noteq> None"
    by auto
  from merge_loop_rows[OF l this]
  have "\<forall>(l, r) \<in> set (stations_gdf_of m). operator r \<noteq> None \<and> socket_type_list r \<noteq> None" .
  then show ?thesis
    unfolding o by (auto simp: merged_stations_def)
qed

text \<open>
  \<^verbatim>\<open>merge\<close> returns on the list of the station without operator, the OCM station
  and the BNA station.
\<close>

theorem incomplete_records_dropped_witness:
  "((\<forall>z. mset (keep_order z) = mset z)
    \<and> merge wkt_point keep_order knn_of_pair test_ratio no_files []
        (Some [osm_dict_no_operator, ocm_dict, bna_dict])
        default_score_threshold default_max_distance None
      = Inr ocm_first_result)
   \<and> stations_gdf_of ocm_first_result = ocm_first_merged
   \<and> operator bna_station \<noteq> None \<and> socket_type_list bna_station \<noteq> None"
proof -
  have r: "stations_gdf_of ocm_first_result = ocm_first_merged"
    by (simp add: ocm_first_result_def)
  have "\<forall>(l, r) \<in> set (stations_gdf_of ocm_first_result) \<union> set (merged_stations_gdf ocm_first_result).
           operator r \<noteq> None \<and> socket_type_list r \<noteq> None"
    by (rule incomplete_records_dropped[OF ex_keep_order ex_merge_no_operator])
  then have "operator bna_station \<noteq> None \<and> socket_type_list bna_station \<noteq> None"
    unfolding r by (simp add: ocm_first_merged_def)
  with r show ?thesis
    using ex_keep_order ex_merge_no_operator by simp
qed

subsection \<open>Claim C7\<close>

text \<open>
  Claim C7 does not hold when the loader fails after it has read a file. With a directory
  whose first file holds the OCM and the BNA station and whose second file does not parse,
  the loader raises, the records of the first file stay in \<^verbatim>\<open>self.data_sources\<close>, and \<^verbatim>\<open>merge\<close>
  returns the merge of these records: the working set is not empty and no error reaches the
  caller.
\<close>

theorem partial_load_counterexample:
  "fst (load_data False broken_second_file [])
     = Some (IOError ''Expecting value: line 1 column 1 (char 0)'')
   \<and> snd (load_data False broken_second_file []) = [ocm_dict, bna_dict]
   \<and> merge_input broken_second_file [] None = Inr [ocm_dict, bna_dict]
   \<and> merge wkt_point keep_order knn_of_pair test_ratio broken_second_file [] None
       default_score_threshold default_max_distance None = Inr ocm_first_result"
  by (simp add: ex_merge_broken ex_load_broken merge_input_def)

text \<open>
  Claim C7, amended. \<^verbatim>\<open>merge\<close> with an explicitly given empty list raises
  \<^verbatim>\<open>RuntimeError\<close>. When no list is given and none is held, an exception of the loader is
  not propagated: the records that the loader read before it failed are the input, and
  \<^verbatim>\<open>merge\<close> goes on as if they had been held. When there are none, preparation raises and
  the error reaches the caller; this is so in particular when the loader fails because it
  read no record at all.
\<close>

theorem load_failure_handling:
  "merge wkt_loads sample knn_from_dataframe ratio listdir ds (Some []) thr maxd sw
     = Inl (RuntimeError ''Your provided list of stations is empty!'')
   \<and> merge_input listdir [] None = Inr (snd (load_data False listdir []))
   \<and> (snd (load_data False listdir []) \<noteq> [] \<longrightarrow>
        merge wkt_loads sample knn_from_dataframe ratio listdir [] None thr maxd sw
        = merge wkt_loads sample knn_from_dataframe ratio listdir (snd (load_data False listdir []))
            None thr maxd sw)
   \<and> (snd (load_data False listdir' []) = [] \<longrightarrow>
        merge wkt_loads sample knn_from_dataframe ratio listdir' [] None thr maxd sw
        = Inl (KeyError ''address.station_id''))
   \<and> (load_files False files [] = (None, []) \<longrightarrow>
        load_data False (Inr files) [] = (Some (RuntimeError ''Could not read any json files!''), []))"
  (is "?A \<and> ?B \<and> ?C \<and> ?D \<and> ?E")
proof (intro conjI)
  show ?A by (simp add: merge_def merge_input_def)
  show ?B by (simp add: merge_input_def)
  show ?C by (simp add: merge_def merge_input_def)
  show ?D by (simp add: merge_def merge_input_def prepare_geodataframe_def)
  show ?E by (simp add: load_data_def)
qed

text \<open>
  The premises of the three conditional parts hold: the directory with the broken second
  file leaves the two stations of the first file, the empty directory leaves nothing.
\<close>

theorem load_failure_handling_witness:
  "(snd (load_data False broken_second_file []) \<noteq> []
    \<and> merge wkt_point keep_order knn_of_pair test_ratio broken_second_file [] None
         default_score_threshold default_max_distance None
       = merge wkt_point keep_order knn_of_pair test_ratio broken_second_file
           (snd (load_data False broken_second_file [])) None
           default_score_threshold default_max_distance None)
   \<and> (snd (load_data False no_files []) = []
    \<and> merge wkt_point keep_order knn_of_pair test_ratio no_files [] None
         default_score_threshold default_max_distance None
       = Inl (KeyError ''address.station_id''))
   \<and> (load_files False ([] :: (string \<times> (error + unit station_dict list)) list) [] = (None, [])
    \<and> load_data False (Inr ([] :: (string \<times> (error + unit station_dict list)) list)) []
       = (Some (RuntimeError ''Could not read any json files!''), []))"
proof -
  note inst = load_failure_handling[where wkt_loads=wkt_point and sample=keep_order
      and knn_from_dataframe=knn_of_pair and ratio=test_ratio and listdir=broken_second_file
      and ds="[]" and thr=default_score_threshold and maxd=default_max_distance and sw=None
      and listdir'=no_files and files="[] :: (string \<times> (error + unit station_dict list)) list"]
  note c = inst[THEN conjunct2, THEN conjunct2, THEN conjunct1, THEN mp, OF ex_snd_broken]
  note d = inst[THEN conjunct2, THEN conjunct2, THEN conjunct2, THEN conjunct1, THEN mp,
      OF ex_snd_no_files]
  note e = inst[THEN conjunct2, THEN conjunct2, THEN conjunct2, THEN conjunct2, THEN mp,
      OF ex_load_files_empty]
  show ?thesis
    by (rule conjI[OF conjI[OF ex_snd_broken c]
          conjI[OF conjI[OF ex_snd_no_files d] conjI[OF ex_load_files_empty e]]])
qed

subsection \<open>Claim C8\<close>

text \<open>
  Claim C8 does not hold for every configuration: with the weights
  \<^verbatim>\<open>dict(operator=0, address=0, distance=-1)\<close> the candidate at 50 metres has a greater
  score than the same candidate at 0 metres.
\<close>

theorem score_monotone_counterexample:
  "getitem (weights_or_default (Some negative_weights)) ''operator'' = Inr 0
   \<and> getitem (weights_or_default (Some negative_weights)) ''address'' = Inr 0
   \<and> getitem (weights_or_default (Some negative_weights)) ''distance'' = Inr (- 1)
   \<and> row near_candidate = row far_candidate
   \<and> distance_meter near_candidate < distance_meter far_candidate
   \<and> matching_score (score_candidate test_ratio bna_station default_score_threshold
         default_max_distance 0 0 (- 1) near_candidate)
     < matching_score (score_candidate test_ratio bna_station default_score_threshold
         default_max_distance 0 0 (- 1) far_candidate)"
  by (simp add: getitem_def weights_or_default_def negative_weights_def near_candidate_def
      far_candidate_def matching_score_formula default_max_distance_def)

text \<open>
  Claim C8, amended. For a distance weight that is not negative and a positive
  \<open>max_distance\<close>, the matching score of two candidates that differ in the distance
  only is monotonically non-increasing in the distance.
\<close>

theorem score_monotone_in_distance:
  assumes "0 \<le> wd" "0 < maxd" "row c1 = row c2" "distance_meter c1 \<le> distance_meter c2"
  shows "matching_score (score_candidate ratio cur thr maxd wo wa wd c2)
         \<le> matching_score (score_candidate ratio cur thr maxd wo wa wd c1)"
proof -
  have "distance_meter c1 / maxd \<le> distance_meter c2 / maxd"
    using assms(2,4) by (simp add: divide_right_mono)
  then have "wd * (1 - distance_meter c2 / maxd) \<le> wd * (1 - distance_meter c1 / maxd)"
    using assms(1) by (intro mult_left_mono) simp_all
  then show ?thesis
    by (simp add: matching_score_formula assms(3))
qed

text \<open>
  The premises hold for the default weights and the default maximum distance.
\<close>

theorem score_monotone_in_distance_witness:
  "((0::real) \<le> 0.7 \<and> 0 < default_max_distance \<and> row near_candidate = row far_candidate
    \<and> distance_meter near_candidate \<le> distance_meter far_candidate)
   \<and> matching_score (score_candidate test_ratio bna_station default_score_threshold
         default_max_distance 0.2 0.1 0.7 far_candidate)
     \<le> matching_score (score_candidate test_ratio bna_station default_score_threshold
         default_max_distance 0.2 0.1 0.7 near_candidate)"
  (is "?H \<and> ?C")
proof (rule conjI)
  have h1: "(0::real) \<le> 0.7" by simp
  have h2: "0 < default_max_distance" by (simp add: default_max_distance_def)
  have h3: "row near_candidate = row far_candidate"
    by (simp add: near_candidate_def far_candidate_def)
  have h4: "distance_meter near_candidate \<le> distance_meter far_candidate"
    by (simp add: near_candidate_def far_candidate_def)
  show ?H by (intro conjI h1 h2 h3 h4)
  show ?C by (rule score_monotone_in_distance[OF h1 h2 h3 h4])
qed

subsection \<open>Claim C9\<close>

text \<open>
  Claim C9. In a working set with unique labels, whose unmarked rows have unique
  identifiers, and for a neighbour table that never lists a station among its own
  neighbours: when an iteration replaces the row of a current station that is not from
  BNA, the row at its position is the row of the winning duplicate, with the identifier and
  the data source of the winner. After this and any further iterations the identifier that
  the current station had is not among the identifiers of the output, while the row of the
  winner, which is marked \<open>is_duplicate\<close>, has the identifier of the surviving row.
  (\<open>prepare_geodataframe_sound\<close> and \<open>merge_loop_unique_ids\<close> show that every working
  set of a run has unique labels and unique identifiers of unmarked rows.)
\<close>

theorem replacement_carries_winner:
  assumes "\<forall>l. l \<notin> set (knn l)" "distinct (map fst f)" "distinct (output_ids f)"
    and "drop idx f = (name, cur) # rest" "\<not> is_duplicate cur"
    and "determine_duplicates ratio cur (get_duplicate_candidates knn f (name, cur) maxd) thr maxd sw = Inr dups"
    and "data_source cur \<noteq> ''BNA''"
    and "find (\<lambda>(c, d). c = data_source cur \<and> (\<exists>x \<in> set dups. data_source (row x) = d))
           ordered_data_source_pairs = Some (c, d)"
    and "merge_step knn ratio thr maxd sw idx f = Inr g"
    and "merge_loop knn ratio thr maxd sw idxs g = Inr f'"
  shows "\<exists>first others.
           filter (\<lambda>x. data_source (row x) = d) dups = first # others
         \<and> g ! idx = (name, (row first)\<lparr>is_duplicate := False, merged_attributes := True\<rparr>)
         \<and> station_id (snd (g ! idx)) = station_id (row first)
         \<and> data_source (snd (g ! idx)) = data_source (row first)
         \<and> station_id cur \<notin> set (output_ids f')
         \<and> (\<exists>j < length g. fst (g ! j) = lbl first \<and> is_duplicate (snd (g ! j))
                \<and> station_id (snd (g ! j)) = station_id (snd (g ! idx)))"
proof -
  let ?m = "mark_duplicates f dups"
  from assms(7,8) obtain first others where
    fr: "filter (\<lambda>x. data_source (row x) = d) dups = first # others"
    and md: "merge_duplicates ?m (name, cur) dups =
       loc_assign ?m name ((row first)\<lparr>is_duplicate := False, merged_attributes := True\<rparr>)"
    by (rule merge_duplicates_first)
  let ?new = "(row first)\<lparr>is_duplicate := False, merged_attributes := True\<rparr>"
  from fr have "first \<in> set (filter (\<lambda>x. data_source (row x) = d) dups)" by simp
  then have fin: "first \<in> set dups" by simp
  then have "dups \<noteq> []" by auto
  from replacement_step[OF assms(4,5,6) this] assms(9) md
  have g: "g = loc_assign ?m name ?new" by simp
  from assms(4) have idx: "idx < length f" "f ! idx = (name, cur)"
    by (auto dest: drop_Cons_nth)
  then have cur_in: "(name, cur) \<in> set f" by (metis nth_mem)
  from assms(2,6) fin obtain r0 where
    r0: "(lbl first, r0) \<in> set f" "\<not> is_duplicate r0" "lbl first \<in> set (knn name)"
        "row first = r0\<lparr>is_duplicate := True\<rparr>"
    by (rule duplicate_rows)
  from r0(3) assms(1) have ne: "lbl first \<noteq> name" by auto
  have gidx: "g ! idx = (name, ?new)"
    using idx by (simp add: g nth_loc_assign nth_mark_duplicates)
  have notin: "station_id cur \<notin> set (output_ids g)"
  proof
    assume "station_id cur \<in> set (output_ids g)"
    then obtain l r where lr: "(l, r) \<in> set g" "\<not> is_duplicate r" "station_id r = station_id cur"
      by (auto simp: in_output_ids)
    from lr(1) consider "r = ?new" | "l \<noteq> name" "(l, r) \<in> set ?m"
      unfolding g by (auto dest: in_set_loc_assign)
    then show False
    proof cases
      case 1
      with lr(3) r0(4) have "station_id r0 = station_id cur" by simp
      from unique_idD[OF assms(3) r0(1,2) cur_in assms(5) this] ne show False by simp
    next
      case 2
      from live_mark_duplicates[OF 2(2) lr(2)] have "(l, r) \<in> set f" by simp
      from unique_idD[OF assms(3) this lr(2) cur_in assms(5) lr(3)] 2(1) show False by simp
    qed
  qed
  have lg: "map fst g = map fst f" by (simp add: g)
  with assms(2) have "distinct (map fst g)" by simp
  from merge_loop_ids_shrink[OF assms(10) this] notin
  have final: "station_id cur \<notin> set (output_ids f')" by auto
  from r0(1) obtain j where j: "j < length f" "f ! j = (lbl first, r0)"
    by (auto simp: in_set_conv_nth)
  have "lbl first \<in> lbl ` set dups" using fin by (rule imageI)
  then have gj: "g ! j = (lbl first, r0\<lparr>is_duplicate := True\<rparr>)"
    using j ne by (simp add: g nth_loc_assign nth_mark_duplicates)
  have "j < length g \<and> fst (g ! j) = lbl first \<and> is_duplicate (snd (g ! j))
          \<and> station_id (snd (g ! j)) = station_id (snd (g ! idx))"
    using j(1) gj gidx r0(4) by (simp add: g)
  then have ex: "\<exists>j < length g. fst (g ! j) = lbl first \<and> is_duplicate (snd (g ! j))
                \<and> station_id (snd (g ! j)) = station_id (snd (g ! idx))"
    by blast
  show ?thesis
    using fr gidx final ex by (intro exI[of _ first] exI[of _ others]) simp
qed

text \<open>
  The premises of C9 hold for the OCM station visited first: its row is replaced by the
  row of the BNA station.
\<close>

theorem replacement_carries_winner_witness:
  "((\<forall>l. l \<notin> set (knn_pair l)) \<and> distinct (map fst ocm_first) \<and> distinct (output_ids ocm_first)
    \<and> drop 0 ocm_first = (0, ocm_station) # [(1, bna_station)]
    \<and> \<not> is_duplicate ocm_station
    \<and> determine_duplicates test_ratio ocm_station
         (get_duplicate_candidates knn_pair ocm_first (0, ocm_station) default_max_distance)
         default_score_threshold default_max_distance None = Inr [scored_bna]
    \<and> data_source ocm_station \<noteq> ''BNA''
    \<and> find (\<lambda>(c, d). c = data_source ocm_station \<and> (\<exists>x \<in> set [scored_bna]. data_source (row x) = d))
         ordered_data_source_pairs = Some (''OCM'', ''BNA'')
    \<and> merge_step knn_pair test_ratio default_score_threshold default_max_distance None 0 ocm_first
         = Inr ocm_first_merged
    \<and> merge_loop knn_pair test_ratio default_score_threshold default_max_distance None [1]
         ocm_first_merged = Inr ocm_first_merged)
   \<and> (\<exists>first others.
           filter (\<lambda>x. data_source (row x) = ''BNA'') [scored_bna] = first # others
         \<and> ocm_first_merged ! 0 = (0, (row first)\<lparr>is_duplicate := False, merged_attributes := True\<rparr>)
         \<and> station_id (snd (ocm_first_merged ! 0)) = station_id (row first)
         \<and> data_source (snd (ocm_first_merged ! 0)) = data_source (row first)
         \<and> station_id ocm_station \<notin> set (output_ids ocm_first_merged)
         \<and> (\<exists>j < length ocm_first_merged. fst (ocm_first_merged ! j) = lbl first
                \<and> is_duplicate (snd (ocm_first_merged ! j))
                \<and> station_id (snd (ocm_first_merged ! j)) = station_id (snd (ocm_first_merged ! 0))))"
  (is "?H \<and> ?C")
proof (rule conjI)
  show ?H
    by (intro conjI knn_pair_irrefl ex_distinct_ocm ex_ids_ocm ex_drop0_ocm ex_ocm_live ex_dups_ocm'
          ex_ocm_not_bna ex_find_ocm ex_step0_ocm ex_loop1_ocm)
  show ?C
    by (rule replacement_carries_winner[OF knn_pair_irrefl ex_distinct_ocm ex_ids_ocm ex_drop0_ocm ex_ocm_live ex_dups_ocm'
          ex_ocm_not_bna ex_find_ocm ex_step0_ocm ex_loop1_ocm])
qed

subsection \<open>Claim C10\<close>

text \<open>
  Claim C10. When the neighbour table never lists a station among its own neighbours, the
  candidate selector never returns the query station; so the query station is not among
  the scored and flagged duplicates, and the marking of the duplicates leaves its own row
  as it is.
\<close>

theorem candidates_exclude_query:
  assumes "\<forall>l. l \<notin> set (knn l)"
    and "determine_duplicates ratio cur (get_duplicate_candidates knn gdf (name, cur) maxd)
           thr maxd sw = Inr dups"
  shows "name \<notin> lbl ` set (get_duplicate_candidates knn gdf (name, cur) maxd)
       \<and> name \<notin> lbl ` set dups
       \<and> (\<forall>i < length gdf. fst (gdf ! i) = name \<longrightarrow> mark_duplicates gdf dups ! i = gdf ! i)"
proof -
  have a: "name \<notin> lbl ` set (get_duplicate_candidates knn gdf (name, cur) maxd)"
  proof
    assume "name \<in> lbl ` set (get_duplicate_candidates knn gdf (name, cur) maxd)"
    then obtain c where "c \<in> set (get_duplicate_candidates knn gdf (name, cur) maxd)" "lbl c = name"
      by auto
    with candidates_in_frame[of c knn gdf name cur maxd] assms(1) show False by auto
  qed
  have b: "name \<notin> lbl ` set dups"
  proof
    assume "name \<in> lbl ` set dups"
    then obtain d where d: "d \<in> set dups" "lbl d = name" by auto
    from assms(2) d(1) obtain c where
      "c \<in> set (get_duplicate_candidates knn gdf (name, cur) maxd)" "lbl d = lbl c"
      by (rule duplicates_from_candidates)
    with d(2) a show False by (metis imageI)
  qed
  from a b show ?thesis by (simp add: nth_mark_duplicates)
qed

text \<open>
  The neighbour table of the example never lists a station among its own neighbours.
\<close>

theorem candidates_exclude_query_witness:
  "((\<forall>l. l \<notin> set (knn_pair l))
    \<and> determine_duplicates test_ratio bna_station
         (get_duplicate_candidates knn_pair bna_first (0, bna_station) default_max_distance)
         default_score_threshold default_max_distance None = Inr [scored_ocm])
   \<and> 0 \<notin> lbl ` set (get_duplicate_candidates knn_pair bna_first (0, bna_station) default_max_distance)
   \<and> 0 \<notin> lbl ` set [scored_ocm]
   \<and> mark_duplicates bna_first [scored_ocm] ! 0 = bna_first ! 0"
proof -
  note c = candidates_exclude_query[OF knn_pair_irrefl ex_dups_bna']
  from c[THEN conjunct2, THEN conjunct2] ex_len_bna ex_label0
  have "mark_duplicates bna_first [scored_ocm] ! 0 = bna_first ! 0" by blast
  with c[THEN conjunct1] c[THEN conjunct2, THEN conjunct1] knn_pair_irrefl ex_dups_bna'
  show ?thesis by (intro conjI)
qed

end
